theory Spec2Isabelle
  imports Complex_Main
begin

section \<open>Token classification task: tensors, loss construction, correctness count\<close>

text \<open>
  The development embeds \<^verbatim>\<open>src/tasks/token_classification.py\<close>.

  Conventions of the embedding.
  \<^item> A tensor is two-dimensional (batch \<times> sequence), as the data loader and the model
    contract (logits of shape (batch, sequence, 1), squeezed on the last axis) provide:
    its shape and its elements in row-major order. \<open>flatten\<close> is the row-major list.
  \<^item> Python floats and tensor elements are real numbers; integer tensors hold \<open>int\<close>.
    Rounding, overflow and NaN of IEEE arithmetic are outside the model.
  \<^item> An exception is a value \<open>Inl\<close> of a sum type. In the stateful routines it comes
    with the calls made on the framework up to the raise.
  \<^item> The pretrained model, the optimizer and the scheduler are external. Their state is
    the history of the calls made on them; the forward pass is a parameter \<open>fwd\<close> that
    maps the history and the inputs to the squeezed logits.
\<close>

datatype error =
    NotImplementedError string
  | ZeroDivisionError
  | ValueError
  | IndexError
  | AssertionError

record 'a tensor =
  nrows :: nat
  ncols :: nat
  data :: "'a list"

definition shape :: "'a tensor \<Rightarrow> nat \<times> nat" where
  "shape t = (nrows t, ncols t)"

definition wf_tensor :: "'a tensor \<Rightarrow> bool" where
  "wf_tensor t = (length (data t) = nrows t * ncols t)"

definition tmap :: "('a \<Rightarrow> 'b) \<Rightarrow> 'a tensor \<Rightarrow> 'b tensor" where
  "tmap f t = \<lparr>nrows = nrows t, ncols = ncols t, data = map f (data t)\<rparr>"

definition flatten :: "'a tensor \<Rightarrow> 'a list" where
  "flatten t = data t"

text \<open>Iterating a tensor yields its rows (the slices along the first axis).\<close>

definition rows :: "'a tensor \<Rightarrow> 'a list list" where
  "rows t = map (\<lambda>i. take (ncols t) (drop (i * ncols t) (data t))) [0..<nrows t]"

definition sigmoid :: "real \<Rightarrow> real" where
  "sigmoid x = 1 / (1 + exp (- x))"

text \<open>\<^verbatim>\<open>.long()\<close> and \<^verbatim>\<open>.float()\<close> of a boolean tensor element.\<close>

definition long :: "bool \<Rightarrow> int" where
  "long b = (if b then 1 else 0)"

definition float :: "bool \<Rightarrow> real" where
  "float b = (if b then 1 else 0)"

text \<open>
  Indexing a one-dimensional tensor by a boolean mask, \<^verbatim>\<open>xs[mask]\<close>: the mask must
  have the length of the indexed tensor, else an index error is raised.
\<close>

definition mask_index :: "'a list \<Rightarrow> bool list \<Rightarrow> error + 'a list" where
  "mask_index xs m =
     (if length m \<noteq> length xs then Inl IndexError
      else Inr (map fst (filter snd (zip xs m))))"

text \<open>
  \<^verbatim>\<open>torch.masked_select(p, m)\<close> on two rows of the same tensor shape: the elements of
  \<open>p\<close> at the positions where \<open>m\<close> is true.
\<close>

definition masked_select :: "'a list \<Rightarrow> bool list \<Rightarrow> 'a list" where
  "masked_select p m = map fst (filter snd (zip p m))"

subsection \<open>Loss construction\<close>

text \<open>
  The functor \<^verbatim>\<open>nn.BCEWithLogitsLoss(reduction, pos_weight)\<close>. The positive-class weight
  is absent or one number (the driver passes a one-element tensor).
\<close>

datatype loss_fn = BCEWithLogitsLoss string "real option"

definition get_loss_fn :: "string \<Rightarrow> string \<Rightarrow> real option \<Rightarrow> error + loss_fn" where
  "get_loss_fn type reduction pos_weight =
     (if type = ''binary_cross_entropy'' then Inr (BCEWithLogitsLoss reduction pos_weight)
      else Inl (NotImplementedError (''loss '' @ type @ '' not yet implemented'')))"

text \<open>
  The elementwise value of the functor: with \<open>p = sigmoid x\<close> and weight \<open>w\<close> (1 when
  absent), \<open>- (w * y * ln p + (1 - y) * ln (1 - p))\<close>.
\<close>

definition bce_with_logits :: "real option \<Rightarrow> real \<Rightarrow> real \<Rightarrow> real" where
  "bce_with_logits pos_weight x y =
     - ((case pos_weight of None \<Rightarrow> 1 | Some w \<Rightarrow> w) * y * ln (sigmoid x)
        + (1 - y) * ln (1 - sigmoid x))"

text \<open>
  Calling the functor with reduction \<^verbatim>\<open>none\<close> (the only reduction the task builds it
  with): the target must have the shape of the input.
\<close>

fun loss_call :: "loss_fn \<Rightarrow> real tensor \<Rightarrow> real tensor \<Rightarrow> error + real tensor" where
  "loss_call (BCEWithLogitsLoss reduction pos_weight) logits labels =
     (if shape labels \<noteq> shape logits then Inl ValueError
      else Inr \<lparr>nrows = nrows logits, ncols = ncols logits,
                data = map2 (bce_with_logits pos_weight) (data logits) (data labels)\<rparr>)"

subsection \<open>Correctness computation\<close>

definition compute_correct ::
  "real tensor \<Rightarrow> real tensor \<Rightarrow> real tensor \<Rightarrow> real \<Rightarrow> error + (int \<times> int list \<times> real list)" where
  "compute_correct logits labels msk th =
     (let preds = tmap (\<lambda>x. sigmoid x > th) logits;
          preds = tmap long preds;
          msk = flatten (tmap (\<lambda>m. m \<noteq> 0) msk)
      in case mask_index (flatten preds) msk of
           Inl e \<Rightarrow> Inl e
         | Inr preds \<Rightarrow>
             (case mask_index (flatten labels) msk of
                Inl e \<Rightarrow> Inl e
              | Inr labels \<Rightarrow>
                  Inr (sum_list (map2 (\<lambda>p l. long (real_of_int p = l)) preds labels),
                       preds, labels)))"

section \<open>The task loops\<close>

subsection \<open>The framework and the task object\<close>

text \<open>
  The calls the task makes on the model, the optimizer, the scheduler and the device, in
  the order they are made. A forward pass is recorded with its inputs, a backward pass
  with the loss it starts from, gradient clipping with the maximal norm.
\<close>

datatype call =
    ModelTrain
  | ModelEval
  | ZeroGrad
  | Forward "int tensor" "real tensor"
  | Backward real
  | ClipGradNorm real
  | OptimizerStep
  | SchedulerStep
  | EmptyCache

type_synonym forward = "call list \<Rightarrow> int tensor \<Rightarrow> real tensor \<Rightarrow> real tensor"

text \<open>
  The task object: its own fields, the step counter it inherits, and the fields of
  \<^verbatim>\<open>self.args\<close> that the loops read.
\<close>

record task =
  pad_token_id :: int
  ignore_index :: int
  global_step :: int
  gradient_accumulation_steps :: int
  steps_per_epoch :: int
  max_grad_norm :: real

type_synonym batch = "int tensor \<times> real tensor"

type_synonym 'a result = "(error \<times> call list) + 'a"

definition mean :: "real list \<Rightarrow> real" where
  "mean xs = sum_list xs / real (length xs)"

text \<open>\<^verbatim>\<open>a *= b\<close> on tensors of one shape.\<close>

definition tmul :: "real tensor \<Rightarrow> real tensor \<Rightarrow> real tensor" where
  "tmul a b = \<lparr>nrows = nrows a, ncols = ncols a, data = map2 (*) (data a) (data b)\<rparr>"

text \<open>\<^verbatim>\<open>t.mean(-1).mean(0)\<close>: the mean over the rows of the mean of each row.\<close>

definition mean_last_first :: "real tensor \<Rightarrow> real" where
  "mean_last_first t = mean (map mean (rows t))"

text \<open>\<^verbatim>\<open>kwargs.get(key, default)\<close>.\<close>

definition kwargs_get :: "'a option \<Rightarrow> 'a \<Rightarrow> 'a" where
  "kwargs_get v d = (case v of None \<Rightarrow> d | Some x \<Rightarrow> x)"

text \<open>\<^verbatim>\<open>int(x)\<close> of a float: truncation towards zero.\<close>

definition py_int :: "real \<Rightarrow> int" where
  "py_int x = (if 0 \<le> x then \<lfloor>x\<rfloor> else \<lceil>x\<rceil>)"

subsection \<open>Training epoch\<close>

record loop_state =
  total_loss :: real
  steps :: nat
  calls :: "call list"

record train_state = loop_state +
  n_pred_total :: real
  n_pred_correct :: int

text \<open>
  One iteration of the loop over the batches, up to the test that ends the epoch. The
  modulus by a zero \<^verbatim>\<open>gradient_accumulation_steps\<close> raises; the print is left out.
\<close>

definition train_batch ::
  "forward \<Rightarrow> task \<Rightarrow> loss_fn \<Rightarrow> train_state \<Rightarrow> nat \<Rightarrow> batch \<Rightarrow> train_state result" where
  "train_batch fwd self loss_fn st batch_idx batch =
     (let (src_seq_t, label_t) = batch;
          attention_mask = tmap (\<lambda>x. float (x \<noteq> pad_token_id self)) src_seq_t;
          label_mask = tmap (\<lambda>y. float (y \<noteq> real_of_int (ignore_index self))) label_t;
          h = calls st @ [ZeroGrad];
          logits_t = fwd h src_seq_t attention_mask;
          h = h @ [Forward src_seq_t attention_mask]
      in case loss_call loss_fn logits_t label_t of
           Inl e \<Rightarrow> Inl (e, h)
         | Inr loss_t \<Rightarrow>
            (let loss_t = tmul loss_t label_mask;
                 loss_t = mean_last_first loss_t;
                 loss_t = (if gradient_accumulation_steps self > 1
                           then loss_t / real_of_int (gradient_accumulation_steps self)
                           else loss_t);
                 h = h @ [Backward loss_t, ClipGradNorm (max_grad_norm self)]
             in if gradient_accumulation_steps self = 0 then Inl (ZeroDivisionError, h)
                else
                 (let h = (if int batch_idx mod gradient_accumulation_steps self = 0
                           then h @ [OptimizerStep, SchedulerStep] else h)
                  in case compute_correct logits_t label_t label_mask (1 / 2) of
                       Inl e \<Rightarrow> Inl (e, h)
                     | Inr (n_correct, _, _) \<Rightarrow>
                         Inr (st\<lparr>steps := steps st + 1,
                                 total_loss := total_loss st + loss_t,
                                 n_pred_total := n_pred_total st + sum_list (flatten label_mask),
                                 n_pred_correct := n_pred_correct st + n_correct,
                                 calls := (if batch_idx mod 50 = 0 then h @ [EmptyCache] else h)\<rparr>))))"

text \<open>
  The loop over \<^verbatim>\<open>enumerate(dataloader)\<close>: after each batch the epoch ends when
  \<^verbatim>\<open>steps / gradient_accumulation_steps == steps_per_epoch\<close> (a true division).
\<close>

fun train_loop ::
  "forward \<Rightarrow> task \<Rightarrow> loss_fn \<Rightarrow> train_state \<Rightarrow> nat \<Rightarrow> batch list \<Rightarrow> train_state result" where
  "train_loop fwd self loss_fn st batch_idx [] = Inr st"
| "train_loop fwd self loss_fn st batch_idx (batch # dataloader) =
     (case train_batch fwd self loss_fn st batch_idx batch of
        Inl e \<Rightarrow> Inl e
      | Inr st' \<Rightarrow>
          if real (steps st') / real_of_int (gradient_accumulation_steps self)
               = real_of_int (steps_per_epoch self)
          then Inr st'
          else train_loop fwd self loss_fn st' (batch_idx + 1) dataloader)"

text \<open>
  The epoch. It returns the mean loss, the accuracy, the task with its step counter
  advanced, and the calls made. Each of the three final divisions raises on a zero
  divisor.
\<close>

definition train ::
  "forward \<Rightarrow> task \<Rightarrow> call list \<Rightarrow> batch list \<Rightarrow> string option \<Rightarrow> real option
     \<Rightarrow> (real \<times> real \<times> task \<times> call list) result" where
  "train fwd self h dataloader loss_type pos_weight =
     (let h = h @ [ModelTrain]
      in case get_loss_fn (kwargs_get loss_type ''binary_cross_entropy'') ''none'' pos_weight of
           Inl e \<Rightarrow> Inl (e, h)
         | Inr loss_fn \<Rightarrow>
            (case train_loop fwd self loss_fn
                    \<lparr>total_loss = 0, steps = 0, calls = h,
                     n_pred_total = 0, n_pred_correct = 0\<rparr> 0 dataloader of
               Inl e \<Rightarrow> Inl e
             | Inr st \<Rightarrow>
                 if gradient_accumulation_steps self = 0 then Inl (ZeroDivisionError, calls st)
                 else
                  (let steps' = real (steps st) / real_of_int (gradient_accumulation_steps self)
                   in if steps' = 0 then Inl (ZeroDivisionError, calls st)
                      else
                       (let total_loss' = total_loss st / steps'
                        in if n_pred_total st = 0 then Inl (ZeroDivisionError, calls st)
                           else
                            Inr (total_loss',
                                 real_of_int (n_pred_correct st) / n_pred_total st,
                                 self\<lparr>global_step := global_step self + py_int steps'\<rparr>,
                                 calls st)))))"

subsection \<open>Evaluation epoch\<close>

text \<open>
  Modelled from the spec: the metrics library is not part of the repository. Accuracy
  is the share of positions where prediction and label agree; precision, recall and F1
  are computed for each class that occurs among the labels or the predictions (a ratio
  with a zero denominator counts as 0) and averaged over the classes with equal weight.
  The definitions are meant for vectors of equal, non-zero length.
\<close>

definition accuracy_score :: "real list \<Rightarrow> int list \<Rightarrow> real" where
  "accuracy_score y_true y_pred =
     real (length (filter (\<lambda>(t, p). t = real_of_int p) (zip y_true y_pred)))
       / real (length y_true)"

definition count_where :: "('a \<Rightarrow> bool) \<Rightarrow> 'a list \<Rightarrow> real" where
  "count_where P xs = real (length (filter P xs))"

definition ratio :: "real \<Rightarrow> real \<Rightarrow> real" where
  "ratio a b = (if b = 0 then 0 else a / b)"

definition class_precision :: "real \<Rightarrow> real list \<Rightarrow> int list \<Rightarrow> real" where
  "class_precision c y_true y_pred =
     ratio (count_where (\<lambda>(t, p). t = c \<and> real_of_int p = c) (zip y_true y_pred))
           (count_where (\<lambda>p. real_of_int p = c) y_pred)"

definition class_recall :: "real \<Rightarrow> real list \<Rightarrow> int list \<Rightarrow> real" where
  "class_recall c y_true y_pred =
     ratio (count_where (\<lambda>(t, p). t = c \<and> real_of_int p = c) (zip y_true y_pred))
           (count_where (\<lambda>t. t = c) y_true)"

definition class_f_score :: "real \<Rightarrow> real list \<Rightarrow> int list \<Rightarrow> real" where
  "class_f_score c y_true y_pred =
     (let p = class_precision c y_true y_pred; r = class_recall c y_true y_pred
      in ratio (2 * p * r) (p + r))"

definition precision_recall_fscore_support :: "real list \<Rightarrow> int list \<Rightarrow> real \<times> real \<times> real" where
  "precision_recall_fscore_support y_true y_pred =
     (let classes = remdups (y_true @ map real_of_int y_pred)
      in (mean (map (\<lambda>c. class_precision c y_true y_pred) classes),
          mean (map (\<lambda>c. class_recall c y_true y_pred) classes),
          mean (map (\<lambda>c. class_f_score c y_true y_pred) classes)))"

record eval_state = loop_state +
  preds :: "int list list"
  labels :: "real list list"

record scores =
  eval_loss :: real
  eval_acc :: real
  eval_prec :: real
  eval_rec :: real
  eval_f_score :: real

definition eval_batch :: "forward \<Rightarrow> task \<Rightarrow> loss_fn \<Rightarrow> eval_state \<Rightarrow> batch \<Rightarrow> eval_state result" where
  "eval_batch fwd self loss_fn st batch =
     (let (src_seq_t, label_t) = batch;
          attention_mask = tmap (\<lambda>x. float (x \<noteq> pad_token_id self)) src_seq_t;
          label_mask = tmap (\<lambda>y. float (y \<noteq> real_of_int (ignore_index self))) label_t;
          logits_t = fwd (calls st) src_seq_t attention_mask;
          h = calls st @ [Forward src_seq_t attention_mask]
      in case loss_call loss_fn logits_t label_t of
           Inl e \<Rightarrow> Inl (e, h)
         | Inr loss_t \<Rightarrow>
            (let loss_t = tmul loss_t label_mask;
                 loss_t = mean_last_first loss_t
             in case compute_correct logits_t label_t label_mask (1 / 2) of
                  Inl e \<Rightarrow> Inl (e, h)
                | Inr (n_correct, pred_t, label_t) \<Rightarrow>
                    Inr (st\<lparr>preds := preds st @ [pred_t],
                            labels := labels st @ [label_t],
                            total_loss := total_loss st + loss_t,
                            steps := steps st + 1,
                            calls := h\<rparr>)))"

fun eval_loop :: "forward \<Rightarrow> task \<Rightarrow> loss_fn \<Rightarrow> eval_state \<Rightarrow> batch list \<Rightarrow> eval_state result" where
  "eval_loop fwd self loss_fn st [] = Inr st"
| "eval_loop fwd self loss_fn st (batch # dataloader) =
     (case eval_batch fwd self loss_fn st batch of
        Inl e \<Rightarrow> Inl e
      | Inr st' \<Rightarrow> eval_loop fwd self loss_fn st' dataloader)"

definition eval ::
  "forward \<Rightarrow> task \<Rightarrow> call list \<Rightarrow> batch list \<Rightarrow> string option \<Rightarrow> real option
     \<Rightarrow> (scores \<times> call list) result" where
  "eval fwd self h dataloader loss_type pos_weight =
     (let h = h @ [ModelEval]
      in case get_loss_fn (kwargs_get loss_type ''binary_cross_entropy'') ''none'' pos_weight of
           Inl e \<Rightarrow> Inl (e, h)
         | Inr loss_fn \<Rightarrow>
            (case eval_loop fwd self loss_fn
                    \<lparr>total_loss = 0, steps = 0, calls = h, preds = [], labels = []\<rparr>
                    dataloader of
               Inl e \<Rightarrow> Inl e
             | Inr st \<Rightarrow>
                 if steps st = 0 then Inl (ZeroDivisionError, calls st)
                 else
                  (let total_loss' = total_loss st / real (steps st);
                       labels' = concat (labels st);
                       preds' = concat (preds st);
                       (prec, rec, f_score) = precision_recall_fscore_support labels' preds';
                       accuracy = accuracy_score labels' preds'
                   in Inr (\<lparr>eval_loss = total_loss', eval_acc = accuracy, eval_prec = prec,
                            eval_rec = rec, eval_f_score = f_score\<rparr>, calls st))))"

subsection \<open>Inference\<close>

type_synonym inference_batch = "int tensor \<times> int tensor"

fun inference_loop ::
  "forward \<Rightarrow> int \<Rightarrow> int \<Rightarrow> real \<Rightarrow> int list list \<times> call list \<Rightarrow> inference_batch list
     \<Rightarrow> (int list list \<times> call list) result" where
  "inference_loop fwd pad_id ignore_id th (out, h) [] = Inr (out, h)"
| "inference_loop fwd pad_id ignore_id th (out, h) ((src_seq_t, token_mask) # dataloader) =
     (let attention_mask = tmap (\<lambda>x. float (x \<noteq> pad_id)) src_seq_t;
          logits_t = fwd h src_seq_t attention_mask;
          h = h @ [Forward src_seq_t attention_mask];
          pred_t = tmap sigmoid logits_t;
          msk = tmap (\<lambda>x. x \<noteq> ignore_id) token_mask
      in if shape msk \<noteq> shape pred_t then Inl (AssertionError, h)
         else inference_loop fwd pad_id ignore_id th
                (out @ map (\<lambda>(m, p). map (\<lambda>x. long (x > th)) (masked_select p m))
                         (zip (rows msk) (rows pred_t)), h)
                dataloader)"

definition inference ::
  "forward \<Rightarrow> call list \<Rightarrow> inference_batch list \<Rightarrow> int \<Rightarrow> int \<Rightarrow> real
     \<Rightarrow> (int list list \<times> call list) result" where
  "inference fwd h dataloader pad_id ignore_id th =
     inference_loop fwd pad_id ignore_id th ([], h @ [ModelEval]) dataloader"

text \<open>
  The sentences of a traversal, in order: each row of a batch's token validity mask,
  paired with the row of probabilities the model gives for it.
\<close>

fun sentences :: "forward \<Rightarrow> int \<Rightarrow> int \<Rightarrow> call list \<Rightarrow> inference_batch list
    \<Rightarrow> (bool list \<times> real list) list" where
  "sentences fwd pad_id ignore_id h [] = []"
| "sentences fwd pad_id ignore_id h ((src_seq_t, token_mask) # dataloader) =
     zip (rows (tmap (\<lambda>x. x \<noteq> ignore_id) token_mask))
         (rows (tmap sigmoid (fwd h src_seq_t (tmap (\<lambda>x. float (x \<noteq> pad_id)) src_seq_t))))
     @ sentences fwd pad_id ignore_id
         (h @ [Forward src_seq_t (tmap (\<lambda>x. float (x \<noteq> pad_id)) src_seq_t)]) dataloader"

subsection \<open>Observations used in the statements\<close>

text \<open>
  The calls of a history that mark the start of a batch (\<open>ZeroGrad\<close>, the first call of
  every training iteration) or step the optimizer or the scheduler; the number of
  optimizer steps in a history; the number of valid (non-ignored) labels of a batch.
\<close>

definition sync_calls :: "call list \<Rightarrow> call list" where
  "sync_calls h = filter (\<lambda>c. c = ZeroGrad \<or> c = OptimizerStep \<or> c = SchedulerStep) h"

definition optimizer_steps :: "call list \<Rightarrow> nat" where
  "optimizer_steps h = length (filter (\<lambda>c. c = OptimizerStep) h)"

definition valid_labels :: "task \<Rightarrow> batch \<Rightarrow> nat" where
  "valid_labels self batch =
     length (filter (\<lambda>y. y \<noteq> real_of_int (ignore_index self)) (data (snd batch)))"

text \<open>
  A batch the model answers with well-formed logits of the shape of the labels,
  whatever the calls made before.
\<close>

definition well_shaped :: "forward \<Rightarrow> batch \<Rightarrow> bool" where
  "well_shaped fwd batch =
     (wf_tensor (snd batch)
      \<and> (\<forall>h am. wf_tensor (fwd h (fst batch) am) \<and> shape (fwd h (fst batch) am) = shape (snd batch)))"

text \<open>
  The filtered prediction and label vectors of the batches of an evaluation, in order:
  for each batch, at the positions whose label is not the ignore index, the thresholded
  sigmoid of the logit the model gives after the calls made so far, and the label.
\<close>

definition batch_vector :: "forward \<Rightarrow> task \<Rightarrow> call list \<Rightarrow> batch \<Rightarrow> int list \<times> real list" where
  "batch_vector fwd self h batch =
     (let logits = fwd h (fst batch) (tmap (\<lambda>x. float (x \<noteq> pad_token_id self)) (fst batch));
          valid = filter (\<lambda>i. data (snd batch) ! i \<noteq> real_of_int (ignore_index self))
                    [0..<length (data (snd batch))]
      in (map (\<lambda>i. long (sigmoid (data logits ! i) > 1 / 2)) valid,
          map (\<lambda>i. data (snd batch) ! i) valid))"

fun batch_vectors :: "forward \<Rightarrow> task \<Rightarrow> call list \<Rightarrow> batch list \<Rightarrow> (int list \<times> real list) list" where
  "batch_vectors fwd self h [] = []"
| "batch_vectors fwd self h (batch # dataloader) =
     batch_vector fwd self h batch
     # batch_vectors fwd self
         (h @ [Forward (fst batch) (tmap (\<lambda>x. float (x \<noteq> pad_token_id self)) (fst batch))])
         dataloader"

text \<open>
  The statistics of the batches of a training epoch, in order. For a batch met after
  the calls \<open>h\<close>: its loss (the mean over the rows of the row means of the elementwise
  loss, zeroed at the ignored labels, and divided by
  \<^verbatim>\<open>gradient_accumulation_steps\<close> when that is above 1), the number of its valid
  positions whose thresholded prediction equals the label, and the calls made once the
  batch of index \<open>i\<close> is processed.
\<close>

definition batch_loss :: "forward \<Rightarrow> task \<Rightarrow> real option \<Rightarrow> call list \<Rightarrow> batch \<Rightarrow> real" where
  "batch_loss fwd self pos_weight h batch =
     (let logits = fwd (h @ [ZeroGrad]) (fst batch)
                     (tmap (\<lambda>x. float (x \<noteq> pad_token_id self)) (fst batch));
          l = mean_last_first
                \<lparr>nrows = nrows logits, ncols = ncols logits,
                 data = map2 (\<lambda>x y. bce_with_logits pos_weight x y
                                      * float (y \<noteq> real_of_int (ignore_index self)))
                          (data logits) (data (snd batch))\<rparr>
      in if gradient_accumulation_steps self > 1
         then l / real_of_int (gradient_accumulation_steps self) else l)"

definition batch_correct :: "forward \<Rightarrow> task \<Rightarrow> call list \<Rightarrow> batch \<Rightarrow> int" where
  "batch_correct fwd self h batch =
     (let logits = fwd (h @ [ZeroGrad]) (fst batch)
                     (tmap (\<lambda>x. float (x \<noteq> pad_token_id self)) (fst batch))
      in int (length (filter
           (\<lambda>i. data (snd batch) ! i \<noteq> real_of_int (ignore_index self)
                \<and> real_of_int (long (sigmoid (data logits ! i) > 1 / 2)) = data (snd batch) ! i)
           [0..<length (data (snd batch))])))"

definition batch_history :: "forward \<Rightarrow> task \<Rightarrow> real option \<Rightarrow> call list \<Rightarrow> nat \<Rightarrow> batch \<Rightarrow> call list" where
  "batch_history fwd self pos_weight h i batch =
     h @ [ZeroGrad,
          Forward (fst batch) (tmap (\<lambda>x. float (x \<noteq> pad_token_id self)) (fst batch)),
          Backward (batch_loss fwd self pos_weight h batch),
          ClipGradNorm (max_grad_norm self)]
       @ (if int i mod gradient_accumulation_steps self = 0
          then [OptimizerStep, SchedulerStep] else [])
       @ (if i mod 50 = 0 then [EmptyCache] else [])"

fun epoch_stats ::
  "forward \<Rightarrow> task \<Rightarrow> real option \<Rightarrow> call list \<Rightarrow> nat \<Rightarrow> batch list \<Rightarrow> (real \<times> int) list" where
  "epoch_stats fwd self pos_weight h i [] = []"
| "epoch_stats fwd self pos_weight h i (batch # dataloader) =
     (batch_loss fwd self pos_weight h batch, batch_correct fwd self h batch)
     # epoch_stats fwd self pos_weight (batch_history fwd self pos_weight h i batch) (i + 1)
         dataloader"

section \<open>Properties\<close>

lemma sigmoid_gt_half: "sigmoid x > 1 / 2 \<longleftrightarrow> x > 0"
proof -
  have p: "1 + exp (- x) > 0" using exp_gt_zero [of "- x"] by linarith
  have "sigmoid x > 1 / 2 \<longleftrightarrow> 1 + exp (- x) < 2"
    unfolding sigmoid_def using p by (auto simp add: field_simps)
  also have "\<dots> \<longleftrightarrow> exp (- x) < exp 0" by simp
  also have "\<dots> \<longleftrightarrow> x > 0" by (simp only: exp_less_cancel_iff) simp
  finally show ?thesis .
qed

lemma sigmoid_eq_half: "sigmoid x = 1 / 2 \<longleftrightarrow> x = 0"
proof -
  have p: "1 + exp (- x) > 0" using exp_gt_zero [of "- x"] by linarith
  have "sigmoid x = 1 / 2 \<longleftrightarrow> 1 + exp (- x) = 2"
    unfolding sigmoid_def using p by (auto simp add: field_simps)
  also have "\<dots> \<longleftrightarrow> exp (- x) = exp 0" by auto
  also have "\<dots> \<longleftrightarrow> x = 0" by (simp only: exp_inj_iff) simp
  finally show ?thesis .
qed

subsection \<open>Tensors and mask selection\<close>

lemma shape_tmap: "shape (tmap f t) = shape t"
  by (simp add: shape_def tmap_def)

lemma data_tmap: "data (tmap f t) = map f (data t)"
  by (simp add: tmap_def)

lemma flatten_tmap: "flatten (tmap f t) = map f (data t)"
  by (simp add: flatten_def tmap_def)

lemma wf_tensor_tmap: "wf_tensor (tmap f t) = wf_tensor t"
  by (simp add: wf_tensor_def tmap_def)

lemma wf_same_shape_length:
  "wf_tensor a \<Longrightarrow> wf_tensor b \<Longrightarrow> shape a = shape b \<Longrightarrow> length (data a) = length (data b)"
  by (simp add: wf_tensor_def shape_def)

text \<open>The elements a mask keeps, by position.\<close>

lemma select_by_index:
  "length xs = length m \<Longrightarrow>
   map fst (filter snd (zip xs m)) = map (\<lambda>i. xs ! i) (filter (\<lambda>i. m ! i) [0..<length m])"
proof (induction m arbitrary: xs rule: rev_induct)
  case Nil
  then show ?case by simp
next
  case (snoc b m)
  then obtain ys y where xs: "xs = ys @ [y]" and len: "length ys = length m"
    by (metis length_append_singleton length_Suc_conv_rev)
  have a: "map (\<lambda>i. (ys @ [y]) ! i) (filter (\<lambda>i. (m @ [b]) ! i) [0..<length m])
        = map (\<lambda>i. ys ! i) (filter (\<lambda>i. m ! i) [0..<length m])"
  proof -
    have f: "filter (\<lambda>i. (m @ [b]) ! i) [0..<length m] = filter (\<lambda>i. m ! i) [0..<length m]"
      by (rule filter_cong) (auto simp: nth_append)
    show ?thesis unfolding f
      by (rule map_cong) (auto simp: nth_append len)
  qed
  show ?case using snoc.IH [OF len] len a
    by (simp add: xs nth_append)
qed

lemma correct_count_card:
  "length ps = length m \<Longrightarrow> length ls = length m \<Longrightarrow>
   sum_list (map2 (\<lambda>p l. long (real_of_int p = l))
      (map fst (filter snd (zip ps m))) (map fst (filter snd (zip ls m))))
   = int (card {i. i < length m \<and> m ! i \<and> real_of_int (ps ! i) = ls ! i})"
proof (induction m arbitrary: ps ls rule: rev_induct)
  case Nil
  then show ?case by simp
next
  case (snoc b m)
  from snoc.prems obtain ps' p where ps: "ps = ps' @ [p]" and lp: "length ps' = length m"
    by (metis length_append_singleton length_Suc_conv_rev)
  from snoc.prems obtain ls' l where ls: "ls = ls' @ [l]" and ll: "length ls' = length m"
    by (metis length_append_singleton length_Suc_conv_rev)
  let ?S = "{i. i < length m \<and> m ! i \<and> real_of_int (ps' ! i) = ls' ! i}"
  have fin: "finite ?S" by simp
  have notin: "length m \<notin> ?S" by simp
  have set_eq: "{i. i < length (m @ [b]) \<and> (m @ [b]) ! i \<and> real_of_int (ps ! i) = ls ! i}
     = (if b \<and> real_of_int p = l then insert (length m) ?S else ?S)"
    using lp ll by (auto simp: ps ls nth_append less_Suc_eq)
  have len2: "length (map fst (filter snd (zip ps' m))) = length (map fst (filter snd (zip ls' m)))"
    using lp ll
    by (simp add: select_by_index)
  show ?case
    unfolding set_eq using snoc.IH [OF lp ll] lp ll fin notin len2
    by (simp add: ps ls long_def)
qed


lemma sigmoid_gt_half_nf: "1 < sigmoid x * 2 \<longleftrightarrow> 0 < x"
  using sigmoid_gt_half [of x] by simp

lemma compute_correct_explicit:
  assumes "wf_tensor lg" "wf_tensor lb" "wf_tensor mk"
    and "shape lb = shape lg" "shape mk = shape lg"
  shows "compute_correct lg lb mk th =
     Inr (int (card {i. i < length (data lg) \<and> data mk ! i \<noteq> 0
                      \<and> real_of_int (long (sigmoid (data lg ! i) > th)) = data lb ! i}),
          map (\<lambda>i. long (sigmoid (data lg ! i) > th))
              (filter (\<lambda>i. data mk ! i \<noteq> 0) [0..<length (data lg)]),
          map (\<lambda>i. data lb ! i) (filter (\<lambda>i. data mk ! i \<noteq> 0) [0..<length (data lg)]))"
proof -
  let ?m = "map (\<lambda>m. m \<noteq> 0) (data mk)"
  let ?ps = "map long (map (\<lambda>x. sigmoid x > th) (data lg))"
  have l1: "length (data lb) = length (data lg)" and l2: "length (data mk) = length (data lg)"
    using assms by (simp_all add: wf_tensor_def shape_def)
  have lp: "length ?ps = length ?m" and ll: "length (data lb) = length ?m"
    using l1 l2 by simp_all
  have f: "filter (\<lambda>i. ?m ! i) [0..<length ?m]
         = filter (\<lambda>i. data mk ! i \<noteq> 0) [0..<length (data lg)]"
    using l2 by (auto intro: filter_cong)
  have set_eq: "{i. i < length ?m \<and> ?m ! i \<and> real_of_int (?ps ! i) = data lb ! i}
      = {i. i < length (data lg) \<and> data mk ! i \<noteq> 0
              \<and> real_of_int (long (sigmoid (data lg ! i) > th)) = data lb ! i}"
    using l2 by auto
  have p: "map fst (filter snd (zip ?ps ?m))
      = map (\<lambda>i. long (sigmoid (data lg ! i) > th))
              (filter (\<lambda>i. data mk ! i \<noteq> 0) [0..<length (data lg)])"
    unfolding select_by_index [OF lp] f by (rule map_cong) auto
  have l: "map fst (filter snd (zip (data lb) ?m))
      = map (\<lambda>i. data lb ! i) (filter (\<lambda>i. data mk ! i \<noteq> 0) [0..<length (data lg)])"
    unfolding select_by_index [OF ll] f ..
  have c: "sum_list (map2 (\<lambda>p l. long (real_of_int p = l))
      (map fst (filter snd (zip ?ps ?m))) (map fst (filter snd (zip (data lb) ?m))))
    = int (card {i. i < length (data lg) \<and> data mk ! i \<noteq> 0
              \<and> real_of_int (long (sigmoid (data lg ! i) > th)) = data lb ! i})"
    unfolding correct_count_card [OF lp ll] set_eq ..
  have mi1: "mask_index ?ps ?m = Inr (map fst (filter snd (zip ?ps ?m)))"
    using l2 by (simp add: mask_index_def)
  have mi2: "mask_index (data lb) ?m = Inr (map fst (filter snd (zip (data lb) ?m)))"
    using l1 l2 by (simp add: mask_index_def)
  show ?thesis
    unfolding compute_correct_def Let_def flatten_tmap data_tmap flatten_def mi1 mi2
    by (simp only: sum.case p l c [unfolded p l])
qed

lemma compute_correct_Inr:
  assumes "compute_correct lg lb mk th = Inr (n, ps, ls)"
  shows "length (data lg) = length (data mk)" "length (data lb) = length (data mk)"
    "ps = map (\<lambda>i. long (sigmoid (data lg ! i) > th))
              (filter (\<lambda>i. data mk ! i \<noteq> 0) [0..<length (data mk)])"
    "ls = map (\<lambda>i. data lb ! i) (filter (\<lambda>i. data mk ! i \<noteq> 0) [0..<length (data mk)])"
    "n = int (length (filter (\<lambda>i. data mk ! i \<noteq> 0
                  \<and> real_of_int (long (sigmoid (data lg ! i) > th)) = data lb ! i)
                [0..<length (data mk)]))"
proof -
  let ?m = "map (\<lambda>m. m \<noteq> 0) (data mk)"
  let ?ps = "map long (map (\<lambda>x. sigmoid x > th) (data lg))"
  from assms have l1: "length (data lg) = length (data mk)" and l2: "length (data lb) = length (data mk)"
    and ps: "ps = map fst (filter snd (zip ?ps ?m))"
    and ls: "ls = map fst (filter snd (zip (data lb) ?m))"
    and n: "n = sum_list (map2 (\<lambda>p l. long (real_of_int p = l))
          (map fst (filter snd (zip ?ps ?m))) (map fst (filter snd (zip (data lb) ?m))))"
    by (auto simp: compute_correct_def Let_def flatten_def tmap_def mask_index_def
        split: if_splits)
  have f: "filter (\<lambda>i. ?m ! i) [0..<length ?m]
         = filter (\<lambda>i. data mk ! i \<noteq> 0) [0..<length (data mk)]"
    by (auto intro: filter_cong)
  show "length (data lg) = length (data mk)" by (rule l1)
  show "length (data lb) = length (data mk)" by (rule l2)
  have lp: "length ?ps = length ?m" using l1 by simp
  show "ps = map (\<lambda>i. long (sigmoid (data lg ! i) > th))
              (filter (\<lambda>i. data mk ! i \<noteq> 0) [0..<length (data mk)])"
    unfolding ps select_by_index [OF lp] f using l1 by (intro map_cong) auto
  have ll: "length (data lb) = length ?m" using l2 by simp
  show "ls = map (\<lambda>i. data lb ! i) (filter (\<lambda>i. data mk ! i \<noteq> 0) [0..<length (data mk)])"
    unfolding ls select_by_index [OF ll] f ..
  have "{i. i < length ?m \<and> ?m ! i \<and> real_of_int (?ps ! i) = data lb ! i}
      = {i. i < length [0..<length (data mk)]
            \<and> (data mk ! ([0..<length (data mk)] ! i) \<noteq> 0
                \<and> real_of_int (long (sigmoid (data lg ! ([0..<length (data mk)] ! i)) > th))
                    = data lb ! ([0..<length (data mk)] ! i))}"
    using l1 by auto
  then show "n = int (length (filter (\<lambda>i. data mk ! i \<noteq> 0
                  \<and> real_of_int (long (sigmoid (data lg ! i) > th)) = data lb ! i)
                [0..<length (data mk)]))"
    unfolding n correct_count_card [OF lp ll] length_filter_conv_card by simp
qed

subsection \<open>The count of correct predictions\<close>

text \<open>
  Claim C1. For logits, labels and a mask of one shape and any threshold,
  \<open>compute_correct\<close> returns, and its count is the number of positions where the mask
  is true (non-zero) and the thresholded sigmoid of the logit equals the label. Two
  inputs that agree on the mask and, at the positions the mask keeps, on logits and
  labels give the same result: the count and both filtered vectors.
\<close>

theorem compute_correct_counts_masked_positions:
  assumes "wf_tensor lg" "wf_tensor lb" "wf_tensor mk"
    and "shape lb = shape lg" "shape mk = shape lg"
  shows "(\<exists>ps ls. compute_correct lg lb mk th =
            Inr (int (card {i. i < length (data lg) \<and> data mk ! i \<noteq> 0
                      \<and> real_of_int (long (sigmoid (data lg ! i) > th)) = data lb ! i}), ps, ls))
      \<and> (\<forall>lg' lb'. wf_tensor lg' \<and> wf_tensor lb' \<and> shape lg' = shape lg \<and> shape lb' = shape lg
             \<and> (\<forall>i < length (data lg). data mk ! i \<noteq> 0
                    \<longrightarrow> data lg' ! i = data lg ! i \<and> data lb' ! i = data lb ! i)
           \<longrightarrow> compute_correct lg' lb' mk th = compute_correct lg lb mk th)"
proof (intro conjI allI impI)
  show "\<exists>ps ls. compute_correct lg lb mk th =
            Inr (int (card {i. i < length (data lg) \<and> data mk ! i \<noteq> 0
                      \<and> real_of_int (long (sigmoid (data lg ! i) > th)) = data lb ! i}), ps, ls)"
    using compute_correct_explicit [OF assms] by blast
next
  fix lg' lb'
  assume h: "wf_tensor lg' \<and> wf_tensor lb' \<and> shape lg' = shape lg \<and> shape lb' = shape lg
             \<and> (\<forall>i < length (data lg). data mk ! i \<noteq> 0
                    \<longrightarrow> data lg' ! i = data lg ! i \<and> data lb' ! i = data lb ! i)"
  have len: "length (data lg') = length (data lg)"
    using h assms(1) by (simp add: wf_tensor_def shape_def)
  have agree: "\<And>i. i < length (data lg) \<Longrightarrow> data mk ! i \<noteq> 0
        \<Longrightarrow> data lg' ! i = data lg ! i \<and> data lb' ! i = data lb ! i"
    using h by blast
  have e': "compute_correct lg' lb' mk th =
     Inr (int (card {i. i < length (data lg') \<and> data mk ! i \<noteq> 0
                      \<and> real_of_int (long (sigmoid (data lg' ! i) > th)) = data lb' ! i}),
          map (\<lambda>i. long (sigmoid (data lg' ! i) > th))
              (filter (\<lambda>i. data mk ! i \<noteq> 0) [0..<length (data lg')]),
          map (\<lambda>i. data lb' ! i) (filter (\<lambda>i. data mk ! i \<noteq> 0) [0..<length (data lg')]))"
    using h assms by (intro compute_correct_explicit) simp_all
  have s: "{i. i < length (data lg') \<and> data mk ! i \<noteq> 0
                      \<and> real_of_int (long (sigmoid (data lg' ! i) > th)) = data lb' ! i}
         = {i. i < length (data lg) \<and> data mk ! i \<noteq> 0
                      \<and> real_of_int (long (sigmoid (data lg ! i) > th)) = data lb ! i}"
    unfolding len using agree by auto
  have p: "map (\<lambda>i. long (sigmoid (data lg' ! i) > th))
              (filter (\<lambda>i. data mk ! i \<noteq> 0) [0..<length (data lg')])
         = map (\<lambda>i. long (sigmoid (data lg ! i) > th))
              (filter (\<lambda>i. data mk ! i \<noteq> 0) [0..<length (data lg)])"
    unfolding len using agree by (intro map_cong) auto
  have l: "map (\<lambda>i. data lb' ! i) (filter (\<lambda>i. data mk ! i \<noteq> 0) [0..<length (data lg')])
         = map (\<lambda>i. data lb ! i) (filter (\<lambda>i. data mk ! i \<noteq> 0) [0..<length (data lg)])"
    unfolding len using agree by (intro map_cong) auto
  show "compute_correct lg' lb' mk th = compute_correct lg lb mk th"
    unfolding e' compute_correct_explicit [OF assms] s p l ..
qed

theorem compute_correct_counts_masked_positions_witness:
  "wf_tensor \<lparr>nrows = 1, ncols = 3, data = [1, - 1, 0 :: real]\<rparr>
   \<and> wf_tensor \<lparr>nrows = 1, ncols = 3, data = [1, 1, 0 :: real]\<rparr>
   \<and> wf_tensor \<lparr>nrows = 1, ncols = 3, data = [1, 0, 1 :: real]\<rparr>
   \<and> compute_correct \<lparr>nrows = 1, ncols = 3, data = [1, - 1, 0]\<rparr>
        \<lparr>nrows = 1, ncols = 3, data = [1, 1, 0]\<rparr>
        \<lparr>nrows = 1, ncols = 3, data = [1, 0, 1]\<rparr> (1 / 2) = Inr (2, [1, 0], [1, 0])
   \<and> compute_correct \<lparr>nrows = 1, ncols = 3, data = [1, 7, 0]\<rparr>
        \<lparr>nrows = 1, ncols = 3, data = [1, 0, 0]\<rparr>
        \<lparr>nrows = 1, ncols = 3, data = [1, 0, 1]\<rparr> (1 / 2)
     = compute_correct \<lparr>nrows = 1, ncols = 3, data = [1, - 1, 0]\<rparr>
        \<lparr>nrows = 1, ncols = 3, data = [1, 1, 0]\<rparr>
        \<lparr>nrows = 1, ncols = 3, data = [1, 0, 1]\<rparr> (1 / 2)"
proof -
  let ?lg = "\<lparr>nrows = 1, ncols = 3, data = [1, - 1, 0 :: real]\<rparr>"
  let ?lb = "\<lparr>nrows = 1, ncols = 3, data = [1, 1, 0 :: real]\<rparr>"
  let ?mk = "\<lparr>nrows = 1, ncols = 3, data = [1, 0, 1 :: real]\<rparr>"
  let ?lg' = "\<lparr>nrows = 1, ncols = 3, data = [1, 7, 0 :: real]\<rparr>"
  let ?lb' = "\<lparr>nrows = 1, ncols = 3, data = [1, 0, 0 :: real]\<rparr>"
  have w: "wf_tensor ?lg" "wf_tensor ?lb" "wf_tensor ?mk" "shape ?lb = shape ?lg"
    "shape ?mk = shape ?lg"
    by (simp_all add: wf_tensor_def shape_def)
  have v: "compute_correct ?lg ?lb ?mk (1 / 2) = Inr (2, [1, 0], [1, 0])"
    by (simp add: compute_correct_def tmap_def flatten_def mask_index_def long_def
        sigmoid_gt_half sigmoid_gt_half_nf)
  have agree: "wf_tensor ?lg' \<and> wf_tensor ?lb' \<and> shape ?lg' = shape ?lg \<and> shape ?lb' = shape ?lg
     \<and> (\<forall>i < length (data ?lg). data ?mk ! i \<noteq> 0
            \<longrightarrow> data ?lg' ! i = data ?lg ! i \<and> data ?lb' ! i = data ?lb ! i)"
    by (simp add: wf_tensor_def shape_def less_Suc_eq numeral_3_eq_3)
  have "compute_correct ?lg' ?lb' ?mk (1 / 2) = compute_correct ?lg ?lb ?mk (1 / 2)"
    using compute_correct_counts_masked_positions [OF w, of "1 / 2"] agree by blast
  with w v show ?thesis by blast
qed

subsection \<open>Loss construction\<close>

text \<open>
  Claim C6. A loss kind other than \<^verbatim>\<open>binary_cross_entropy\<close> makes \<open>get_loss_fn\<close> fail
  with the "not implemented" error. The training and the evaluation epoch then fail
  with that error whatever the data loader holds, and the only call made before the
  failure is the one that sets the mode of the model: no batch has been processed. The
  kind \<^verbatim>\<open>binary_cross_entropy\<close> gives the configured functor.
\<close>

theorem get_loss_fn_closed_enumeration:
  "(type \<noteq> ''binary_cross_entropy'' \<longrightarrow>
      get_loss_fn type reduction pos_weight
        = Inl (NotImplementedError (''loss '' @ type @ '' not yet implemented''))
      \<and> train fwd self h dataloader (Some type) pos_weight
        = Inl (NotImplementedError (''loss '' @ type @ '' not yet implemented''), h @ [ModelTrain])
      \<and> eval fwd self h dataloader (Some type) pos_weight
        = Inl (NotImplementedError (''loss '' @ type @ '' not yet implemented''), h @ [ModelEval]))
   \<and> get_loss_fn ''binary_cross_entropy'' reduction pos_weight
        = Inr (BCEWithLogitsLoss reduction pos_weight)"
  by (simp add: get_loss_fn_def train_def eval_def kwargs_get_def)

theorem get_loss_fn_closed_enumeration_witness:
  "''mse'' \<noteq> ''binary_cross_entropy''
   \<and> get_loss_fn ''mse'' ''none'' (Some 5) = Inl (NotImplementedError ''loss mse not yet implemented'')
   \<and> train (\<lambda>h src am. am) \<lparr>pad_token_id = 1, ignore_index = - 100, global_step = 0,
         gradient_accumulation_steps = 1, steps_per_epoch = 1, max_grad_norm = 1\<rparr> []
         [(\<lparr>nrows = 1, ncols = 2, data = [5, 1]\<rparr>, \<lparr>nrows = 1, ncols = 2, data = [1, - 100]\<rparr>)]
         (Some ''mse'') (Some 5)
       = Inl (NotImplementedError ''loss mse not yet implemented'', [ModelTrain])
   \<and> eval (\<lambda>h src am. am) \<lparr>pad_token_id = 1, ignore_index = - 100, global_step = 0,
         gradient_accumulation_steps = 1, steps_per_epoch = 1, max_grad_norm = 1\<rparr> []
         [(\<lparr>nrows = 1, ncols = 2, data = [5, 1]\<rparr>, \<lparr>nrows = 1, ncols = 2, data = [1, - 100]\<rparr>)]
         (Some ''mse'') (Some 5)
       = Inl (NotImplementedError ''loss mse not yet implemented'', [ModelEval])
   \<and> get_loss_fn ''binary_cross_entropy'' ''none'' (Some 5) = Inr (BCEWithLogitsLoss ''none'' (Some 5))"
  using get_loss_fn_closed_enumeration [of "''mse''" "''none''" "Some 5" "\<lambda>h src am. am"
      "\<lparr>pad_token_id = 1, ignore_index = - 100, global_step = 0,
         gradient_accumulation_steps = 1, steps_per_epoch = 1, max_grad_norm = 1\<rparr>" "[]"
      "[(\<lparr>nrows = 1, ncols = 2, data = [5, 1]\<rparr>, \<lparr>nrows = 1, ncols = 2, data = [1, - 100]\<rparr>)]"]
  by simp

subsection \<open>Inference\<close>

lemma length_rows: "length (rows t) = nrows t"
  by (simp add: rows_def)

lemma rows_tmap: "rows (tmap f t) = map (map f) (rows t)"
  by (simp add: rows_def tmap_def take_map drop_map)

lemma length_row:
  assumes "wf_tensor t" "r \<in> set (rows t)"
  shows "length r = ncols t"
proof -
  from assms(2) obtain i where i: "i < nrows t" and r: "r = take (ncols t) (drop (i * ncols t) (data t))"
    by (auto simp: rows_def)
  have "Suc i * ncols t \<le> nrows t * ncols t"
    using i by (intro mult_le_mono1) simp
  then have "ncols t \<le> length (data t) - i * ncols t"
    using assms(1) by (simp add: wf_tensor_def)
  then show ?thesis by (simp add: r)
qed

lemma length_masked_select:
  "length m \<le> length p \<Longrightarrow> length (masked_select p m) = length (filter id m)"
proof (induction m arbitrary: p)
  case Nil
  then show ?case by (simp add: masked_select_def)
next
  case (Cons b m)
  then obtain x p' where p: "p = x # p'" by (cases p) auto
  with Cons show ?case by (auto simp: masked_select_def)
qed

lemma inference_loop_sentences:
  "inference_loop fwd pad_id ignore_id th (out, h) dl = Inr (out', h') \<Longrightarrow>
   out' = out @ map (\<lambda>(m, p). map (\<lambda>x. long (x > th)) (masked_select p m))
                   (sentences fwd pad_id ignore_id h dl)"
proof (induction dl arbitrary: out h)
  case Nil
  then show ?case by simp
next
  case (Cons b dl)
  obtain src tm where b: "b = (src, tm)" by (cases b)
  show ?case using Cons.prems
    by (auto simp: b Let_def split: if_splits dest!: Cons.IH)
qed


lemma sentence_lengths:
  assumes "wf_tensor tm" "wf_tensor pr" "shape (tmap f tm) = shape pr"
  shows "map (\<lambda>(m, p). length (map g (masked_select p m))) (zip (rows (tmap f tm)) (rows pr))
       = map (\<lambda>r. length (filter f r)) (rows tm)"
proof (rule nth_equalityI)
  have n: "nrows pr = nrows tm" and c: "ncols pr = ncols tm"
    using assms(3) by (simp_all add: shape_def tmap_def)
  show "length (map (\<lambda>(m, p). length (map g (masked_select p m))) (zip (rows (tmap f tm)) (rows pr)))
      = length (map (\<lambda>r. length (filter f r)) (rows tm))"
    by (simp add: length_rows rows_tmap n)
  fix i
  assume "i < length (map (\<lambda>(m, p). length (map g (masked_select p m)))
                        (zip (rows (tmap f tm)) (rows pr)))"
  then have i: "i < nrows tm" by (simp add: length_rows rows_tmap n)
  have lt: "length (rows tm ! i) = ncols tm"
    using i by (intro length_row [OF assms(1)]) (simp add: length_rows)
  have lp: "length (rows pr ! i) = ncols tm"
    using i n c length_row [OF assms(2), of "rows pr ! i"] by (simp add: length_rows)
  have "length (masked_select (rows pr ! i) (map f (rows tm ! i)))
       = length (filter id (map f (rows tm ! i)))"
    by (rule length_masked_select) (simp add: lt lp)
  also have "\<dots> = length (filter f (rows tm ! i))"
    by (simp add: filter_map comp_def)
  finally show "map (\<lambda>(m, p). length (map g (masked_select p m))) (zip (rows (tmap f tm)) (rows pr)) ! i
       = map (\<lambda>r. length (filter f r)) (rows tm) ! i"
    using i n by (simp add: length_rows rows_tmap)
qed

lemma inference_loop_lengths:
  "inference_loop fwd pad_id ignore_id th (out, h) dl = Inr (out', h') \<Longrightarrow>
   \<forall>(src, tm) \<in> set dl. wf_tensor tm \<and> (\<forall>h am. wf_tensor (fwd h src am)) \<Longrightarrow>
   map length out' = map length out
      @ map (\<lambda>r. length (filter (\<lambda>x. x \<noteq> ignore_id) r)) (concat (map (\<lambda>(src, tm). rows tm) dl))"
proof (induction dl arbitrary: out h)
  case Nil
  then show ?case by simp
next
  case (Cons b dl)
  obtain src tm where b: "b = (src, tm)" by (cases b)
  let ?am = "tmap (\<lambda>x. float (x \<noteq> pad_id)) src"
  let ?pr = "tmap sigmoid (fwd h src ?am)"
  let ?new = "map (\<lambda>(m, p). map (\<lambda>x. long (x > th)) (masked_select p m))
                  (zip (rows (tmap (\<lambda>x. x \<noteq> ignore_id) tm)) (rows ?pr))"
  from Cons.prems(1) have sh: "shape (tmap (\<lambda>x. x \<noteq> ignore_id) tm) = shape ?pr"
    and rest: "inference_loop fwd pad_id ignore_id th (out @ ?new, h @ [Forward src ?am]) dl
                = Inr (out', h')"
    by (auto simp: b Let_def split: if_splits)
  have wf: "wf_tensor tm" "wf_tensor ?pr"
    using Cons.prems(2) by (auto simp: b wf_tensor_tmap)
  have new: "map length ?new = map (\<lambda>r. length (filter (\<lambda>x. x \<noteq> ignore_id) r)) (rows tm)"
    using sentence_lengths [OF wf sh, of "\<lambda>x. long (x > th)"]
    by (simp add: case_prod_unfold comp_def)
  have "\<forall>(src, tm) \<in> set dl. wf_tensor tm \<and> (\<forall>h am. wf_tensor (fwd h src am))"
    using Cons.prems(2) by simp
  from Cons.IH [OF rest this] show ?case
    by (simp add: b new del: map_map)
qed

lemma sum_list_length_concat_rows:
  "length (concat (map (\<lambda>(src, tm). rows tm) dl)) = sum_list (map (\<lambda>(src, tm). nrows tm) dl)"
  by (induction dl) (auto simp: length_rows)

text \<open>
  Claim C7. A traversal that returns emits one list of labels 0 and 1 for each sentence
  (each row of each batch's token mask), in the order of the traversal, and the list of
  a sentence has as many labels as the sentence's token mask has valid positions.
  The tensors are well formed (as many elements as the shape says).
\<close>

theorem inference_one_list_per_sentence:
  assumes "inference fwd h dl pad_id ignore_id th = Inr (out, h')"
    and "\<forall>(src, tm) \<in> set dl. wf_tensor tm \<and> (\<forall>h am. wf_tensor (fwd h src am))"
  shows "length out = sum_list (map (\<lambda>(src, tm). nrows tm) dl)
     \<and> map length out = map (\<lambda>r. length (filter (\<lambda>x. x \<noteq> ignore_id) r))
                           (concat (map (\<lambda>(src, tm). rows tm) dl))
     \<and> (\<forall>l \<in> set out. set l \<subseteq> {0, 1})"
proof -
  have lens: "map length out = map (\<lambda>r. length (filter (\<lambda>x. x \<noteq> ignore_id) r))
                           (concat (map (\<lambda>(src, tm). rows tm) dl))"
    using inference_loop_lengths [OF assms(1) [unfolded inference_def] assms(2)] by simp
  have "length out = length (map length out)" by simp
  also have "\<dots> = sum_list (map (\<lambda>(src, tm). nrows tm) dl)"
    unfolding lens by (simp add: sum_list_length_concat_rows)
  finally have n: "length out = sum_list (map (\<lambda>(src, tm). nrows tm) dl)" .
  have "out = map (\<lambda>(m, p). map (\<lambda>x. long (x > th)) (masked_select p m))
                   (sentences fwd pad_id ignore_id (h @ [ModelEval]) dl)"
    using inference_loop_sentences [OF assms(1) [unfolded inference_def]] by simp
  then have "\<forall>l \<in> set out. set l \<subseteq> {0, 1}"
    by (auto simp: long_def)
  with n lens show ?thesis by blast
qed


theorem inference_one_list_per_sentence_witness:
  "inference (\<lambda>h src am. tmap real_of_int src) []
      [(\<lparr>nrows = 2, ncols = 2, data = [3, - 2, 0, 5]\<rparr>,
        \<lparr>nrows = 2, ncols = 2, data = [1, - 100, 1, 1]\<rparr>),
       (\<lparr>nrows = 1, ncols = 2, data = [- 1, 4]\<rparr>,
        \<lparr>nrows = 1, ncols = 2, data = [- 100, 1]\<rparr>)] 0 (- 100) (1 / 2)
     = Inr ([[1], [0, 1], [1]],
            [ModelEval,
             Forward \<lparr>nrows = 2, ncols = 2, data = [3, - 2, 0, 5]\<rparr>
                     \<lparr>nrows = 2, ncols = 2, data = [1, 1, 0, 1]\<rparr>,
             Forward \<lparr>nrows = 1, ncols = 2, data = [- 1, 4]\<rparr>
                     \<lparr>nrows = 1, ncols = 2, data = [1, 1]\<rparr>])
   \<and> length [[1], [0, 1], [1 :: int]] = 2 + 1
   \<and> map length [[1], [0, 1], [1 :: int]] = [1, 2, 1]"
proof -
  let ?fwd = "\<lambda>(h :: call list) (src :: int tensor) (am :: real tensor). tmap real_of_int src"
  let ?dl = "[(\<lparr>nrows = 2, ncols = 2, data = [3, - 2, 0, 5 :: int]\<rparr>,
        \<lparr>nrows = 2, ncols = 2, data = [1, - 100, 1, 1 :: int]\<rparr>),
       (\<lparr>nrows = 1, ncols = 2, data = [- 1, 4]\<rparr>,
        \<lparr>nrows = 1, ncols = 2, data = [- 100, 1]\<rparr>)]"
  let ?h = "[ModelEval,
             Forward \<lparr>nrows = 2, ncols = 2, data = [3, - 2, 0, 5]\<rparr>
                     \<lparr>nrows = 2, ncols = 2, data = [1, 1, 0, 1]\<rparr>,
             Forward \<lparr>nrows = 1, ncols = 2, data = [- 1, 4]\<rparr>
                     \<lparr>nrows = 1, ncols = 2, data = [1, 1]\<rparr>]"
  have ev: "inference ?fwd [] ?dl 0 (- 100) (1 / 2) = Inr ([[1], [0, 1], [1]], ?h)"
    by (simp add: inference_def Let_def tmap_def shape_def rows_def masked_select_def
        long_def float_def sigmoid_gt_half sigmoid_gt_half_nf upt_rec)
  have wf: "\<forall>(src, tm) \<in> set ?dl. wf_tensor tm \<and> (\<forall>h am. wf_tensor (?fwd h src am))"
    by (simp add: wf_tensor_def tmap_def)
  from inference_one_list_per_sentence [OF ev wf] ev show ?thesis
    by (simp add: rows_def upt_rec)
qed


lemma inference_loop_append:
  "inference_loop fwd pad_id ignore_id th s (pre @ post) =
     (case inference_loop fwd pad_id ignore_id th s pre of
        Inl e \<Rightarrow> Inl e
      | Inr s' \<Rightarrow> inference_loop fwd pad_id ignore_id th s' post)"
proof (induction pre arbitrary: s)
  case Nil
  then show ?case by (cases s) simp
next
  case (Cons b pre)
  obtain src tm where b: "b = (src, tm)" by (cases b)
  obtain out h where s: "s = (out, h)" by (cases s)
  show ?case by (simp add: b s Let_def Cons.IH)
qed

lemma inference_loop_error:
  "inference_loop fwd pad_id ignore_id th s dl = Inl (e, h') \<Longrightarrow> e = AssertionError"
proof (induction dl arbitrary: s)
  case Nil
  then show ?case by (cases s) simp
next
  case (Cons b dl)
  obtain src tm where b: "b = (src, tm)" by (cases b)
  obtain out h where s: "s = (out, h)" by (cases s)
  from Cons.prems show ?case
    by (auto simp: b s Let_def split: if_splits dest: Cons.IH)
qed

lemma inference_loop_returns:
  "\<forall>(src, tm) \<in> set dl. \<forall>h am. shape (fwd h src am) = shape tm \<Longrightarrow>
   \<exists>out' h'. inference_loop fwd pad_id ignore_id th s dl = Inr (out', h')"
proof (induction dl arbitrary: s)
  case Nil
  then show ?case by (cases s) simp
next
  case (Cons b dl)
  obtain src tm where b: "b = (src, tm)" by (cases b)
  obtain out h where s: "s = (out, h)" by (cases s)
  from Cons.prems have "\<forall>(src, tm) \<in> set dl. \<forall>h am. shape (fwd h src am) = shape tm"
    by simp
  from Cons.IH [OF this] Cons.prems show ?case
    by (simp add: b s Let_def shape_tmap)
qed

text \<open>
  Claim C8. When the batches before a batch pass and the shape of its token mask differs
  from the shape of the squeezed sigmoid output, inference fails at that batch with the
  assertion error, which it does not catch. The assertion is the only failure of the
  traversal: when the two shapes are equal at every batch, inference returns.
\<close>

theorem inference_shape_assertion:
  "(inference fwd h pre pad_id ignore_id th = Inr (out, h1)
      \<and> shape (tmap (\<lambda>x. x \<noteq> ignore_id) tm)
          \<noteq> shape (tmap sigmoid (fwd h1 src (tmap (\<lambda>x. float (x \<noteq> pad_id)) src)))
      \<longrightarrow> inference fwd h (pre @ (src, tm) # post) pad_id ignore_id th
          = Inl (AssertionError, h1 @ [Forward src (tmap (\<lambda>x. float (x \<noteq> pad_id)) src)]))
   \<and> ((\<forall>(src, tm) \<in> set dl. \<forall>h am. shape (fwd h src am) = shape tm)
      \<longrightarrow> (\<exists>out' h'. inference fwd h dl pad_id ignore_id th = Inr (out', h')))
   \<and> (\<forall>e h'. inference fwd h dl pad_id ignore_id th = Inl (e, h') \<longrightarrow> e = AssertionError)"
proof (intro conjI impI allI)
  assume a: "inference fwd h pre pad_id ignore_id th = Inr (out, h1)
      \<and> shape (tmap (\<lambda>x. x \<noteq> ignore_id) tm)
          \<noteq> shape (tmap sigmoid (fwd h1 src (tmap (\<lambda>x. float (x \<noteq> pad_id)) src)))"
  then show "inference fwd h (pre @ (src, tm) # post) pad_id ignore_id th
          = Inl (AssertionError, h1 @ [Forward src (tmap (\<lambda>x. float (x \<noteq> pad_id)) src)])"
    by (simp add: inference_def inference_loop_append Let_def)
next
  assume "\<forall>(src, tm) \<in> set dl. \<forall>h am. shape (fwd h src am) = shape tm"
  from inference_loop_returns [OF this]
  show "\<exists>out' h'. inference fwd h dl pad_id ignore_id th = Inr (out', h')"
    by (simp add: inference_def)
next
  fix e h'
  assume "inference fwd h dl pad_id ignore_id th = Inl (e, h')"
  then show "e = AssertionError"
    unfolding inference_def by (rule inference_loop_error)
qed

theorem inference_shape_assertion_witness:
  "inference (\<lambda>h src am. tmap real_of_int src) []
      [(\<lparr>nrows = 1, ncols = 2, data = [3, 0]\<rparr>, \<lparr>nrows = 1, ncols = 2, data = [1, 1]\<rparr>)]
      0 (- 100) (1 / 2)
     = Inr ([[1, 0]], [ModelEval, Forward \<lparr>nrows = 1, ncols = 2, data = [3, 0]\<rparr>
                                        \<lparr>nrows = 1, ncols = 2, data = [1, 0]\<rparr>])
   \<and> inference (\<lambda>h src am. tmap real_of_int src) []
      [(\<lparr>nrows = 1, ncols = 2, data = [3, 0]\<rparr>, \<lparr>nrows = 1, ncols = 2, data = [1, 1]\<rparr>),
       (\<lparr>nrows = 1, ncols = 2, data = [4, 2]\<rparr>, \<lparr>nrows = 2, ncols = 1, data = [1, 1]\<rparr>),
       (\<lparr>nrows = 1, ncols = 1, data = [7]\<rparr>, \<lparr>nrows = 1, ncols = 1, data = [1]\<rparr>)]
      0 (- 100) (1 / 2)
     = Inl (AssertionError,
            [ModelEval,
             Forward \<lparr>nrows = 1, ncols = 2, data = [3, 0]\<rparr> \<lparr>nrows = 1, ncols = 2, data = [1, 0]\<rparr>,
             Forward \<lparr>nrows = 1, ncols = 2, data = [4, 2]\<rparr> \<lparr>nrows = 1, ncols = 2, data = [1, 1]\<rparr>])"
proof -
  let ?fwd = "\<lambda>(h :: call list) (src :: int tensor) (am :: real tensor). tmap real_of_int src"
  let ?b1 = "(\<lparr>nrows = 1, ncols = 2, data = [3, 0 :: int]\<rparr>, \<lparr>nrows = 1, ncols = 2, data = [1, 1 :: int]\<rparr>)"
  let ?h1 = "[ModelEval, Forward \<lparr>nrows = 1, ncols = 2, data = [3, 0]\<rparr>
                                        \<lparr>nrows = 1, ncols = 2, data = [1, 0]\<rparr>]"
  let ?src = "\<lparr>nrows = 1, ncols = 2, data = [4, 2 :: int]\<rparr>"
  let ?tm = "\<lparr>nrows = 2, ncols = 1, data = [1, 1 :: int]\<rparr>"
  have all: "\<forall>(src, tm) \<in> set [?b1]. \<forall>h am. shape (?fwd h src am) = shape tm"
    by (simp add: shape_def tmap_def)
  have "\<exists>out' h'. inference ?fwd [] [?b1] 0 (- 100) (1 / 2) = Inr (out', h')"
    using inference_shape_assertion [of ?fwd "[]" "[]" 0 "- 100" "1 / 2" _ _ _ _ _ "[?b1]"] all
    by blast
  have ev: "inference ?fwd [] [?b1] 0 (- 100) (1 / 2) = Inr ([[1, 0]], ?h1)"
    by (simp add: inference_def Let_def tmap_def shape_def rows_def masked_select_def
        long_def float_def sigmoid_gt_half sigmoid_gt_half_nf upt_rec)
  have ne: "shape (tmap (\<lambda>x. x \<noteq> - 100) ?tm)
          \<noteq> shape (tmap sigmoid (?fwd ?h1 ?src (tmap (\<lambda>x. float (x \<noteq> 0)) ?src)))"
    by (simp add: shape_def tmap_def)
  from inference_shape_assertion [of ?fwd "[]" "[?b1]" 0 "- 100" "1 / 2" "[[1, 0]]" ?h1 ?tm ?src
      "[(\<lparr>nrows = 1, ncols = 1, data = [7]\<rparr>, \<lparr>nrows = 1, ncols = 1, data = [1]\<rparr>)]"] ev ne
  show ?thesis
    by (simp add: tmap_def float_def)
qed


subsection \<open>Strict thresholding\<close>

text \<open>
  Claim C10. The threshold is strict in \<open>compute_correct\<close> and in \<open>inference\<close>: a
  predicted label is 1 exactly when the probability is greater than the threshold, so a
  probability equal to the threshold gives the label 0. With the threshold 1/2 the
  probability equals the threshold exactly when the logit is 0 (over the reals).
\<close>

theorem thresholding_is_strict:
  "(wf_tensor lg \<and> wf_tensor lb \<and> wf_tensor mk \<and> shape lb = shape lg \<and> shape mk = shape lg
      \<longrightarrow> (\<exists>n ps ls. compute_correct lg lb mk th = Inr (n, ps, ls)
            \<and> length ps = length (filter (\<lambda>i. data mk ! i \<noteq> 0) [0..<length (data lg)])
            \<and> (\<forall>j < length ps.
                  (sigmoid (data lg ! (filter (\<lambda>i. data mk ! i \<noteq> 0) [0..<length (data lg)] ! j)) = th
                     \<longrightarrow> ps ! j = 0)
                  \<and> (ps ! j = 1 \<longleftrightarrow>
                     th < sigmoid (data lg ! (filter (\<lambda>i. data mk ! i \<noteq> 0) [0..<length (data lg)] ! j)))
                  \<and> (ps ! j = 0 \<or> ps ! j = 1))))
   \<and> (inference fwd h dl pad_id ignore_id th = Inr (out, h')
      \<longrightarrow> length out = length (sentences fwd pad_id ignore_id (h @ [ModelEval]) dl)
        \<and> (\<forall>k < length out. \<forall>m p. sentences fwd pad_id ignore_id (h @ [ModelEval]) dl ! k = (m, p)
              \<longrightarrow> length (out ! k) = length (masked_select p m)
                \<and> (\<forall>j < length (out ! k).
                      (masked_select p m ! j = th \<longrightarrow> out ! k ! j = 0)
                      \<and> (out ! k ! j = 1 \<longleftrightarrow> th < masked_select p m ! j)
                      \<and> (out ! k ! j = 0 \<or> out ! k ! j = 1))))
   \<and> (sigmoid x = 1 / 2 \<longleftrightarrow> x = 0)"
proof -
  let ?idx = "filter (\<lambda>i. data mk ! i \<noteq> 0) [0..<length (data lg)]"
  let ?ps = "map (\<lambda>i. long (sigmoid (data lg ! i) > th)) ?idx"
  let ?S = "sentences fwd pad_id ignore_id (h @ [ModelEval]) dl"
  have A: "\<exists>n ps ls. compute_correct lg lb mk th = Inr (n, ps, ls)
            \<and> length ps = length ?idx
            \<and> (\<forall>j < length ps.
                  (sigmoid (data lg ! (?idx ! j)) = th \<longrightarrow> ps ! j = 0)
                  \<and> (ps ! j = 1 \<longleftrightarrow> th < sigmoid (data lg ! (?idx ! j)))
                  \<and> (ps ! j = 0 \<or> ps ! j = 1))"
    if a: "wf_tensor lg \<and> wf_tensor lb \<and> wf_tensor mk \<and> shape lb = shape lg \<and> shape mk = shape lg"
  proof -
    obtain n ls where e: "compute_correct lg lb mk th = Inr (n, ?ps, ls)"
      using compute_correct_explicit [of lg lb mk th] a by blast
    have l: "length ?ps = length ?idx" by simp
    have q: "\<forall>j < length ?ps. (sigmoid (data lg ! (?idx ! j)) = th \<longrightarrow> ?ps ! j = 0)
            \<and> (?ps ! j = 1 \<longleftrightarrow> th < sigmoid (data lg ! (?idx ! j)))
            \<and> (?ps ! j = 0 \<or> ?ps ! j = 1)"
      by (simp add: long_def)
    from e l q show ?thesis by blast
  qed
  have B: "length out = length ?S
        \<and> (\<forall>k < length out. \<forall>m p. ?S ! k = (m, p)
              \<longrightarrow> length (out ! k) = length (masked_select p m)
                \<and> (\<forall>j < length (out ! k).
                      (masked_select p m ! j = th \<longrightarrow> out ! k ! j = 0)
                      \<and> (out ! k ! j = 1 \<longleftrightarrow> th < masked_select p m ! j)
                      \<and> (out ! k ! j = 0 \<or> out ! k ! j = 1)))"
    if r: "inference fwd h dl pad_id ignore_id th = Inr (out, h')"
  proof -
    have out: "out = map (\<lambda>(m, p). map (\<lambda>x. long (x > th)) (masked_select p m)) ?S"
      using inference_loop_sentences [of fwd pad_id ignore_id th "[]" "h @ [ModelEval]" dl out h'] r
      by (simp add: inference_def)
    show ?thesis unfolding out by (simp add: long_def)
  qed
  have C: "sigmoid x = 1 / 2 \<longleftrightarrow> x = 0" by (rule sigmoid_eq_half)
  from A B C show ?thesis by blast
qed


theorem thresholding_is_strict_witness:
  "compute_correct \<lparr>nrows = 1, ncols = 3, data = [0, 1, - 1]\<rparr>
        \<lparr>nrows = 1, ncols = 3, data = [0, 1, 1]\<rparr>
        \<lparr>nrows = 1, ncols = 3, data = [1, 1, 1]\<rparr> (1 / 2) = Inr (2, [0, 1, 0], [0, 1, 1])
   \<and> sigmoid 0 = 1 / 2
   \<and> inference (\<lambda>h src am. tmap real_of_int src) []
        [(\<lparr>nrows = 1, ncols = 2, data = [0, 5]\<rparr>, \<lparr>nrows = 1, ncols = 2, data = [1, 1]\<rparr>)]
        0 (- 100) (1 / 2)
      = Inr ([[0, 1]], [ModelEval, Forward \<lparr>nrows = 1, ncols = 2, data = [0, 5]\<rparr>
                                          \<lparr>nrows = 1, ncols = 2, data = [0, 1]\<rparr>])"
proof -
  let ?lg = "\<lparr>nrows = 1, ncols = 3, data = [0, 1, - 1 :: real]\<rparr>"
  let ?lb = "\<lparr>nrows = 1, ncols = 3, data = [0, 1, 1 :: real]\<rparr>"
  let ?mk = "\<lparr>nrows = 1, ncols = 3, data = [1, 1, 1 :: real]\<rparr>"
  let ?fwd = "\<lambda>(h :: call list) (src :: int tensor) (am :: real tensor). tmap real_of_int src"
  let ?dl = "[(\<lparr>nrows = 1, ncols = 2, data = [0, 5 :: int]\<rparr>,
               \<lparr>nrows = 1, ncols = 2, data = [1, 1 :: int]\<rparr>)]"
  let ?h = "[ModelEval, Forward \<lparr>nrows = 1, ncols = 2, data = [0, 5]\<rparr>
                                          \<lparr>nrows = 1, ncols = 2, data = [0, 1]\<rparr>]"
  have w: "wf_tensor ?lg \<and> wf_tensor ?lb \<and> wf_tensor ?mk \<and> shape ?lb = shape ?lg
      \<and> shape ?mk = shape ?lg"
    by (simp add: wf_tensor_def shape_def)
  have cc: "compute_correct ?lg ?lb ?mk (1 / 2) = Inr (2, [0, 1, 0], [0, 1, 1])"
    by (simp add: compute_correct_def tmap_def flatten_def mask_index_def long_def
        sigmoid_gt_half sigmoid_gt_half_nf)
  have ev: "inference ?fwd [] ?dl 0 (- 100) (1 / 2) = Inr ([[0, 1]], ?h)"
    by (simp add: inference_def Let_def tmap_def shape_def rows_def masked_select_def
        long_def float_def sigmoid_gt_half sigmoid_gt_half_nf upt_rec)
  from thresholding_is_strict [of ?lg ?lb ?mk "1 / 2" ?fwd "[]" ?dl 0 "- 100" "[[0, 1]]" ?h 0] w ev
  have "sigmoid 0 = 1 / 2" by simp
  with cc ev show ?thesis by blast
qed

subsection \<open>One training iteration\<close>

lemma sum_list_float:
  "sum_list (map (\<lambda>y. float (P y)) xs) = real (length (filter P xs))"
  by (induction xs) (auto simp: float_def)

lemma loss_call_same_shape:
  "shape lab = shape lg \<Longrightarrow> \<exists>l. loss_call lf lg lab = Inr l"
  by (cases lf) simp

lemma train_batch_Inr:
  assumes "train_batch fwd self lf st i b = Inr st'"
  shows "gradient_accumulation_steps self \<noteq> 0"
    and "steps st' = steps st + 1"
    and "n_pred_total st' = n_pred_total st + real (valid_labels self b)"
    and "sync_calls (calls st') = sync_calls (calls st)
           @ ZeroGrad # (if int i mod gradient_accumulation_steps self = 0
                         then [OptimizerStep, SchedulerStep] else [])"
    and "optimizer_steps (calls st') = optimizer_steps (calls st)
           + (if int i mod gradient_accumulation_steps self = 0 then 1 else 0)"
  using assms
  by (auto simp: train_batch_def Let_def sync_calls_def optimizer_steps_def valid_labels_def
      flatten_tmap sum_list_float
      split: prod.splits sum.splits if_splits)


subsection \<open>The loop over the batches\<close>

lemma train_loop_Inr:
  "train_loop fwd self lf st i dl = Inr st' \<Longrightarrow>
   \<exists>n \<le> length dl. steps st' = steps st + n
     \<and> sync_calls (calls st') = sync_calls (calls st)
          @ concat (map (\<lambda>k. ZeroGrad # (if int k mod gradient_accumulation_steps self = 0
                                          then [OptimizerStep, SchedulerStep] else []))
                        [i..<i + n])
     \<and> optimizer_steps (calls st') = optimizer_steps (calls st)
          + length (filter (\<lambda>k. int k mod gradient_accumulation_steps self = 0) [i..<i + n])
     \<and> n_pred_total st' = n_pred_total st + real (sum_list (map (valid_labels self) (take n dl)))
     \<and> (dl \<noteq> [] \<longrightarrow> 1 \<le> n \<and> gradient_accumulation_steps self \<noteq> 0)"
proof (induction dl arbitrary: st i)
  case Nil
  then show ?case by simp
next
  case (Cons b dl)
  let ?g = "gradient_accumulation_steps self"
  let ?seg = "\<lambda>k. ZeroGrad # (if int k mod ?g = 0 then [OptimizerStep, SchedulerStep] else [])"
  from Cons.prems obtain st1 where b: "train_batch fwd self lf st i b = Inr st1"
    by (auto split: sum.splits)
  note tb = train_batch_Inr [OF b]
  show ?case
  proof (cases "real (steps st1) / real_of_int ?g = real_of_int (steps_per_epoch self)")
    case True
    with Cons.prems b have "st' = st1" by simp
    with tb show ?thesis
      by (intro exI [of _ 1]) simp
  next
    case False
    with Cons.prems b have "train_loop fwd self lf st1 (i + 1) dl = Inr st'" by simp
    from Cons.IH [OF this] obtain n where n: "n \<le> length dl" "steps st' = steps st1 + n"
      "sync_calls (calls st') = sync_calls (calls st1) @ concat (map ?seg [i + 1..<i + 1 + n])"
      "optimizer_steps (calls st') = optimizer_steps (calls st1)
          + length (filter (\<lambda>k. int k mod ?g = 0) [i + 1..<i + 1 + n])"
      "n_pred_total st' = n_pred_total st1 + real (sum_list (map (valid_labels self) (take n dl)))"
      by blast
    have u: "[i..<i + Suc n] = i # [i + 1..<i + 1 + n]"
      by (simp add: upt_conv_Cons)
    have c1: "Suc n \<le> length (b # dl)" using n(1) by simp
    have c2: "steps st' = steps st + Suc n" using n(2) tb(2) by simp
    have c3: "sync_calls (calls st') = sync_calls (calls st) @ concat (map ?seg [i..<i + Suc n])"
      unfolding u n(3) tb(4) by simp
    have c4: "optimizer_steps (calls st') = optimizer_steps (calls st)
          + length (filter (\<lambda>k. int k mod ?g = 0) [i..<i + Suc n])"
      unfolding u n(4) tb(5) by simp
    have c5: "n_pred_total st' = n_pred_total st
          + real (sum_list (map (valid_labels self) (take (Suc n) (b # dl))))"
      unfolding n(5) tb(3) by simp
    have c6: "b # dl \<noteq> [] \<longrightarrow> 1 \<le> Suc n \<and> ?g \<noteq> 0" using tb(1) by simp
    from c1 c2 c3 c4 c5 c6 show ?thesis by blast
  qed
qed


lemma train_batch_returns:
  assumes "gradient_accumulation_steps self \<noteq> 0" "well_shaped fwd b"
  shows "\<exists>st'. train_batch fwd self lf st i b = Inr st'"
proof -
  obtain src lab where b: "b = (src, lab)" by (cases b)
  let ?am = "tmap (\<lambda>x. float (x \<noteq> pad_token_id self)) src"
  let ?lm = "tmap (\<lambda>y. float (y \<noteq> real_of_int (ignore_index self))) lab"
  let ?lg = "fwd (calls st @ [ZeroGrad]) src ?am"
  have wf: "wf_tensor ?lg" "wf_tensor lab" "wf_tensor ?lm"
    and sh: "shape lab = shape ?lg" "shape ?lm = shape ?lg"
    using assms(2) by (simp_all add: well_shaped_def b wf_tensor_tmap shape_tmap)
  obtain l where l: "loss_call lf ?lg lab = Inr l"
    using loss_call_same_shape [OF sh(1)] by blast
  obtain n ps ls where c: "compute_correct ?lg lab ?lm (1 / 2) = Inr (n, ps, ls)"
    using compute_correct_explicit [OF wf sh] by blast
  show ?thesis
    using assms(1) by (simp add: train_batch_def b Let_def l c)
qed

lemma train_loop_budget:
  "gradient_accumulation_steps self = 1 \<Longrightarrow> steps_per_epoch self = int (steps st + k) \<Longrightarrow>
   1 \<le> k \<Longrightarrow> k \<le> length dl \<Longrightarrow> \<forall>b \<in> set (take k dl). well_shaped fwd b \<Longrightarrow>
   \<exists>st'. train_loop fwd self lf st i dl = Inr st' \<and> steps st' = steps st + k
     \<and> train_loop fwd self lf st i (take k dl) = Inr st'"
proof (induction dl arbitrary: st i k)
  case Nil
  then show ?case by simp
next
  case (Cons b dl)
  from Cons.prems obtain k' where k: "k = Suc k'" by (cases k) auto
  have "well_shaped fwd b" using Cons.prems(5) by (simp add: k)
  then obtain st1 where b: "train_batch fwd self lf st i b = Inr st1"
    using train_batch_returns [of self fwd b lf st i] Cons.prems(1) by auto
  have s1: "steps st1 = steps st + 1" by (rule train_batch_Inr(2) [OF b])
  show ?case
  proof (cases k')
    case 0
    then show ?thesis
      using Cons.prems(1,2) b s1 by (simp add: k)
  next
    case (Suc k'')
    have ne: "real (steps st1) / real_of_int (gradient_accumulation_steps self)
        \<noteq> real_of_int (steps_per_epoch self)"
      using Cons.prems(1,2) s1 by (simp add: k Suc)
    have "\<exists>st'. train_loop fwd self lf st1 (i + 1) dl = Inr st' \<and> steps st' = steps st1 + k'
       \<and> train_loop fwd self lf st1 (i + 1) (take k' dl) = Inr st'"
      using Cons.prems s1 by (intro Cons.IH) (simp_all add: k Suc)
    then show ?thesis
      using b ne s1 by (simp add: k)
  qed
qed


lemma train_loop_returns:
  "gradient_accumulation_steps self \<noteq> 0 \<Longrightarrow> \<forall>b \<in> set dl. well_shaped fwd b \<Longrightarrow>
   \<exists>st'. train_loop fwd self lf st i dl = Inr st'"
proof (induction dl arbitrary: st i)
  case Nil
  then show ?case by simp
next
  case (Cons b dl)
  from Cons.prems obtain st1 where b: "train_batch fwd self lf st i b = Inr st1"
    using train_batch_returns [of self fwd b lf st i] by auto
  from Cons.IH [of st1 "i + 1"] Cons.prems
  obtain st' where "train_loop fwd self lf st1 (i + 1) dl = Inr st'" by auto
  with b show ?case by simp
qed

subsection \<open>Optimizer steps\<close>

text \<open>
  Claim C3, as amended. For every non-zero \<^verbatim>\<open>gradient_accumulation_steps\<close>, the
  optimizer and the scheduler are stepped on exactly the batches whose zero-based index
  is divisible by it: an iteration that completes adds, after its \<open>ZeroGrad\<close>, one
  optimizer step and one scheduler step when the index is divisible, and none
  otherwise; over the loop the steps follow this pattern for the indices of the batches
  processed, and the first batch (index 0) is stepped. When the value is not zero, every
  iteration on a well-shaped batch completes, and so does the loop.
\<close>

theorem optimizer_steps_on_divisible_batch_indices:
  "(train_batch fwd self lf st i b = Inr st1 \<longrightarrow>
      sync_calls (calls st1) = sync_calls (calls st)
        @ ZeroGrad # (if int i mod gradient_accumulation_steps self = 0
                      then [OptimizerStep, SchedulerStep] else []))
   \<and> (train_loop fwd self lf st 0 dl = Inr st' \<longrightarrow>
        sync_calls (calls st') = sync_calls (calls st)
          @ concat (map (\<lambda>k. ZeroGrad # (if int k mod gradient_accumulation_steps self = 0
                                          then [OptimizerStep, SchedulerStep] else []))
                        [0..<steps st' - steps st])
        \<and> (dl \<noteq> [] \<longrightarrow>
             take 3 (drop (length (sync_calls (calls st))) (sync_calls (calls st')))
               = [ZeroGrad, OptimizerStep, SchedulerStep]))
   \<and> (gradient_accumulation_steps self \<noteq> 0 \<and> well_shaped fwd b \<longrightarrow>
        (\<exists>st1. train_batch fwd self lf st i b = Inr st1))
   \<and> (gradient_accumulation_steps self \<noteq> 0 \<and> (\<forall>b \<in> set dl. well_shaped fwd b) \<longrightarrow>
        (\<exists>st'. train_loop fwd self lf st 0 dl = Inr st'))"
proof -
  let ?g = "gradient_accumulation_steps self"
  let ?seg = "\<lambda>k. ZeroGrad # (if int k mod ?g = 0 then [OptimizerStep, SchedulerStep] else [])"
  have A: "sync_calls (calls st1) = sync_calls (calls st) @ ?seg i"
    if "train_batch fwd self lf st i b = Inr st1"
    by (rule train_batch_Inr(4) [OF that])
  have B: "sync_calls (calls st') = sync_calls (calls st) @ concat (map ?seg [0..<steps st' - steps st])
        \<and> (dl \<noteq> [] \<longrightarrow>
             take 3 (drop (length (sync_calls (calls st))) (sync_calls (calls st')))
               = [ZeroGrad, OptimizerStep, SchedulerStep])"
    if r: "train_loop fwd self lf st 0 dl = Inr st'"
  proof -
    from train_loop_Inr [OF r] obtain n where n: "steps st' = steps st + n"
      "sync_calls (calls st') = sync_calls (calls st) @ concat (map ?seg [0..<0 + n])"
      "dl \<noteq> [] \<longrightarrow> 1 \<le> n"
      by blast
    have e: "sync_calls (calls st') = sync_calls (calls st) @ concat (map ?seg [0..<steps st' - steps st])"
      using n(1,2) by simp
    have "take 3 (drop (length (sync_calls (calls st))) (sync_calls (calls st')))
               = [ZeroGrad, OptimizerStep, SchedulerStep]" if "dl \<noteq> []"
    proof -
      from that n(3) obtain m where m: "n = Suc m" by (cases n) auto
      have "[0..<0 + n] = 0 # [1..<n]" by (simp add: m upt_conv_Cons)
      then show ?thesis unfolding n(2) by simp
    qed
    with e show ?thesis by blast
  qed
  have C: "\<exists>st1. train_batch fwd self lf st i b = Inr st1"
    if "?g \<noteq> 0 \<and> well_shaped fwd b"
    using that train_batch_returns [of self fwd b lf st i] by blast
  have D: "\<exists>st'. train_loop fwd self lf st 0 dl = Inr st'"
    if "?g \<noteq> 0 \<and> (\<forall>b \<in> set dl. well_shaped fwd b)"
    using that train_loop_returns [of self dl fwd lf st 0] by blast
  from A B C D show ?thesis by blast
qed

theorem optimizer_steps_on_divisible_batch_indices_witness:
  "map_sum fst (sync_calls \<circ> calls)
     (train_loop (\<lambda>h src am. tmap real_of_int src)
        \<lparr>pad_token_id = 0, ignore_index = - 100, global_step = 0,
         gradient_accumulation_steps = 2, steps_per_epoch = 5, max_grad_norm = 1\<rparr>
        (BCEWithLogitsLoss ''none'' None)
        \<lparr>total_loss = 0, steps = 0, calls = [ModelTrain], n_pred_total = 0, n_pred_correct = 0\<rparr> 0
        [(\<lparr>nrows = 1, ncols = 1, data = [3]\<rparr>, \<lparr>nrows = 1, ncols = 1, data = [1]\<rparr>),
         (\<lparr>nrows = 1, ncols = 1, data = [- 2]\<rparr>, \<lparr>nrows = 1, ncols = 1, data = [1]\<rparr>),
         (\<lparr>nrows = 1, ncols = 1, data = [4]\<rparr>, \<lparr>nrows = 1, ncols = 1, data = [0]\<rparr>)])
   = Inr [ZeroGrad, OptimizerStep, SchedulerStep, ZeroGrad, ZeroGrad, OptimizerStep, SchedulerStep]
   \<and> map_sum fst (sync_calls \<circ> calls)
     (train_batch (\<lambda>h src am. tmap real_of_int src)
        \<lparr>pad_token_id = 0, ignore_index = - 100, global_step = 0,
         gradient_accumulation_steps = 2, steps_per_epoch = 5, max_grad_norm = 1\<rparr>
        (BCEWithLogitsLoss ''none'' None)
        \<lparr>total_loss = 0, steps = 0, calls = [ModelTrain], n_pred_total = 0, n_pred_correct = 0\<rparr> 1
        (\<lparr>nrows = 1, ncols = 1, data = [3]\<rparr>, \<lparr>nrows = 1, ncols = 1, data = [1]\<rparr>))
   = Inr [ZeroGrad]"
proof -
  let ?fwd = "\<lambda>(h :: call list) (src :: int tensor) (am :: real tensor). tmap real_of_int src"
  let ?self = "\<lparr>pad_token_id = 0, ignore_index = - 100, global_step = 0,
         gradient_accumulation_steps = 2, steps_per_epoch = 5, max_grad_norm = 1\<rparr>"
  let ?lf = "BCEWithLogitsLoss ''none'' None"
  let ?st = "\<lparr>total_loss = 0, steps = 0, calls = [ModelTrain], n_pred_total = 0,
              n_pred_correct = 0\<rparr>"
  let ?dl = "[(\<lparr>nrows = 1, ncols = 1, data = [3 :: int]\<rparr>, \<lparr>nrows = 1, ncols = 1, data = [1 :: real]\<rparr>),
         (\<lparr>nrows = 1, ncols = 1, data = [- 2]\<rparr>, \<lparr>nrows = 1, ncols = 1, data = [1]\<rparr>),
         (\<lparr>nrows = 1, ncols = 1, data = [4]\<rparr>, \<lparr>nrows = 1, ncols = 1, data = [0]\<rparr>)]"
  have "map_sum fst steps (train_loop ?fwd ?self ?lf ?st 0 ?dl) = Inr 3"
    by (simp add: train_batch_def Let_def tmap_def shape_def compute_correct_def flatten_def
        mask_index_def float_def long_def tmul_def mean_last_first_def)
  moreover have ws: "gradient_accumulation_steps ?self \<noteq> 0 \<and> (\<forall>b \<in> set ?dl. well_shaped ?fwd b)"
    by (simp add: well_shaped_def wf_tensor_def tmap_def shape_def)
  then have "\<exists>st'. train_loop ?fwd ?self ?lf ?st 0 ?dl = Inr st'"
    using optimizer_steps_on_divisible_batch_indices [of ?fwd ?self ?lf ?st _ _ _ ?dl] by blast
  ultimately obtain st' where r: "train_loop ?fwd ?self ?lf ?st 0 ?dl = Inr st'"
    and s: "steps st' = 3"
    by auto
  let ?b = "(\<lparr>nrows = 1, ncols = 1, data = [3 :: int]\<rparr>, \<lparr>nrows = 1, ncols = 1, data = [1 :: real]\<rparr>)"
  have "map_sum fst steps (train_batch ?fwd ?self ?lf ?st 1 ?b) = Inr 1"
    by (simp add: train_batch_def Let_def tmap_def shape_def compute_correct_def flatten_def
        mask_index_def float_def long_def tmul_def mean_last_first_def)
  have wb: "gradient_accumulation_steps ?self \<noteq> 0 \<and> well_shaped ?fwd ?b"
    by (simp add: well_shaped_def wf_tensor_def tmap_def shape_def)
  then obtain st1 where r1: "train_batch ?fwd ?self ?lf ?st 1 ?b = Inr st1"
    using optimizer_steps_on_divisible_batch_indices [of ?fwd ?self ?lf ?st 1 ?b] by blast
  from optimizer_steps_on_divisible_batch_indices [of ?fwd ?self ?lf ?st 1 ?b st1 ?dl st'] r r1 s
  have "sync_calls (calls st')
      = [ZeroGrad, OptimizerStep, SchedulerStep, ZeroGrad, ZeroGrad, OptimizerStep, SchedulerStep]
    \<and> sync_calls (calls st1) = [ZeroGrad]"
    by (simp add: sync_calls_def upt_rec)
  with r r1 show ?thesis by simp
qed

text \<open>
  The claim as first stated, for every value of \<^verbatim>\<open>gradient_accumulation_steps\<close>,
  fails at 0: the modulus of the first batch raises the division error before the
  optimizer is stepped, so the epoch ends with one \<open>ZeroGrad\<close> and no optimizer step.
\<close>

theorem optimizer_steps_zero_accumulation_counterexample:
  "map_sum (map_prod id sync_calls) steps
     (train_loop (\<lambda>h src am. tmap real_of_int src)
        \<lparr>pad_token_id = 0, ignore_index = - 100, global_step = 0,
         gradient_accumulation_steps = 0, steps_per_epoch = 5, max_grad_norm = 1\<rparr>
        (BCEWithLogitsLoss ''none'' None)
        \<lparr>total_loss = 0, steps = 0, calls = [ModelTrain], n_pred_total = 0, n_pred_correct = 0\<rparr> 0
        [(\<lparr>nrows = 1, ncols = 1, data = [3]\<rparr>, \<lparr>nrows = 1, ncols = 1, data = [1]\<rparr>),
         (\<lparr>nrows = 1, ncols = 1, data = [- 2]\<rparr>, \<lparr>nrows = 1, ncols = 1, data = [1]\<rparr>)])
     = Inl (ZeroDivisionError, [ZeroGrad])
   \<and> map_sum (map_prod id optimizer_steps) fst
     (train (\<lambda>h src am. tmap real_of_int src)
        \<lparr>pad_token_id = 0, ignore_index = - 100, global_step = 0,
         gradient_accumulation_steps = 0, steps_per_epoch = 5, max_grad_norm = 1\<rparr> []
        [(\<lparr>nrows = 1, ncols = 1, data = [3]\<rparr>, \<lparr>nrows = 1, ncols = 1, data = [1]\<rparr>),
         (\<lparr>nrows = 1, ncols = 1, data = [- 2]\<rparr>, \<lparr>nrows = 1, ncols = 1, data = [1]\<rparr>)] None None)
     = Inl (ZeroDivisionError, 0)"
  by (simp add: train_def get_loss_fn_def kwargs_get_def train_batch_def Let_def tmap_def
      shape_def float_def sync_calls_def optimizer_steps_def)

subsection \<open>The batch budget of an epoch\<close>

text \<open>
  Claim C5, as amended. With \<^verbatim>\<open>gradient_accumulation_steps = 1\<close> and
  \<^verbatim>\<open>steps_per_epoch = N\<close> for a positive \<open>N\<close>, on a data loader of at least \<open>N\<close>
  batches whose first \<open>N\<close> batches are well shaped, the loop processes exactly \<open>N\<close>
  batches and stops; the epoch is the epoch of the first \<open>N\<close> batches alone, so its
  result does not depend on the length of the data loader.
\<close>

theorem train_processes_steps_per_epoch_batches:
  assumes "gradient_accumulation_steps self = 1" "steps_per_epoch self = int N"
    and "1 \<le> N" "N \<le> length dl" "\<forall>b \<in> set (take N dl). well_shaped fwd b"
    and "steps st = 0"
  shows "(\<exists>st'. train_loop fwd self lf st 0 dl = Inr st' \<and> steps st' = N
            \<and> length (filter (\<lambda>c. c = ZeroGrad) (calls st'))
                = length (filter (\<lambda>c. c = ZeroGrad) (calls st)) + N)
     \<and> train_loop fwd self lf st 0 dl = train_loop fwd self lf st 0 (take N dl)
     \<and> train fwd self h dl loss_type pos_weight = train fwd self h (take N dl) loss_type pos_weight"
proof -
  have spe: "steps_per_epoch self = int (steps st + N)" using assms(2,6) by simp
  from train_loop_budget [OF assms(1) spe assms(3,4,5), of lf 0]
  obtain st' where st': "train_loop fwd self lf st 0 dl = Inr st'" "steps st' = N"
    "train_loop fwd self lf st 0 (take N dl) = Inr st'"
    using assms(6) by auto
  from train_loop_Inr [OF st'(1)] obtain n where n: "steps st' = steps st + n"
    "sync_calls (calls st') = sync_calls (calls st)
          @ concat (map (\<lambda>k. ZeroGrad # (if int k mod gradient_accumulation_steps self = 0
                                          then [OptimizerStep, SchedulerStep] else []))
                        [0..<0 + n])"
    by blast
  have nN: "n = N" using n(1) st'(2) assms(6) by simp
  have z: "filter (\<lambda>c. c = ZeroGrad) h' = filter (\<lambda>c. c = ZeroGrad) (sync_calls h')" for h'
    by (auto simp: sync_calls_def intro: filter_cong)
  have cnt: "length (filter (\<lambda>c. c = ZeroGrad) (concat (map (\<lambda>k. ZeroGrad # (if int k mod g = 0
                                          then [OptimizerStep, SchedulerStep] else [])) ks)))
        = length ks" for g ks
    by (induction ks) auto
  have zg: "length (filter (\<lambda>c. c = ZeroGrad) (calls st'))
                = length (filter (\<lambda>c. c = ZeroGrad) (calls st)) + N"
    unfolding z [of "calls st'"] n(2) nN z [of "calls st"] by (simp add: cnt)
  have loop: "train_loop fwd self lf st 0 dl = train_loop fwd self lf st 0 (take N dl)"
    using st' by simp
  have tr: "train fwd self h dl loss_type pos_weight
          = train fwd self h (take N dl) loss_type pos_weight"
  proof (cases "get_loss_fn (kwargs_get loss_type ''binary_cross_entropy'') ''none'' pos_weight")
    case (Inl e)
    then show ?thesis by (simp add: train_def)
  next
    case (Inr lf')
    let ?st0 = "\<lparr>total_loss = 0, steps = 0, calls = h @ [ModelTrain],
                 n_pred_total = 0, n_pred_correct = 0\<rparr>"
    have spe0: "steps_per_epoch self = int (steps ?st0 + N)" using assms(2) by simp
    from train_loop_budget [OF assms(1) spe0 assms(3,4,5), of lf' 0]
    have "train_loop fwd self lf' ?st0 0 dl = train_loop fwd self lf' ?st0 0 (take N dl)"
      by auto
    then show ?thesis by (simp add: train_def Inr Let_def)
  qed
  from st' zg loop tr show ?thesis by blast
qed


theorem train_processes_steps_per_epoch_batches_witness:
  "map_sum fst steps
     (train_loop (\<lambda>h src am. tmap real_of_int src)
        \<lparr>pad_token_id = 0, ignore_index = - 100, global_step = 0,
         gradient_accumulation_steps = 1, steps_per_epoch = 2, max_grad_norm = 1\<rparr>
        (BCEWithLogitsLoss ''none'' None)
        \<lparr>total_loss = 0, steps = 0, calls = [ModelTrain], n_pred_total = 0, n_pred_correct = 0\<rparr> 0
        [(\<lparr>nrows = 1, ncols = 1, data = [3]\<rparr>, \<lparr>nrows = 1, ncols = 1, data = [1]\<rparr>),
         (\<lparr>nrows = 1, ncols = 1, data = [- 2]\<rparr>, \<lparr>nrows = 1, ncols = 1, data = [1]\<rparr>),
         (\<lparr>nrows = 1, ncols = 1, data = [4]\<rparr>, \<lparr>nrows = 1, ncols = 1, data = [0]\<rparr>)])
   = Inr 2
   \<and> train (\<lambda>h src am. tmap real_of_int src)
        \<lparr>pad_token_id = 0, ignore_index = - 100, global_step = 0,
         gradient_accumulation_steps = 1, steps_per_epoch = 2, max_grad_norm = 1\<rparr> []
        [(\<lparr>nrows = 1, ncols = 1, data = [3]\<rparr>, \<lparr>nrows = 1, ncols = 1, data = [1]\<rparr>),
         (\<lparr>nrows = 1, ncols = 1, data = [- 2]\<rparr>, \<lparr>nrows = 1, ncols = 1, data = [1]\<rparr>),
         (\<lparr>nrows = 1, ncols = 1, data = [4]\<rparr>, \<lparr>nrows = 1, ncols = 1, data = [0]\<rparr>)] None None
     = train (\<lambda>h src am. tmap real_of_int src)
        \<lparr>pad_token_id = 0, ignore_index = - 100, global_step = 0,
         gradient_accumulation_steps = 1, steps_per_epoch = 2, max_grad_norm = 1\<rparr> []
        [(\<lparr>nrows = 1, ncols = 1, data = [3]\<rparr>, \<lparr>nrows = 1, ncols = 1, data = [1]\<rparr>),
         (\<lparr>nrows = 1, ncols = 1, data = [- 2]\<rparr>, \<lparr>nrows = 1, ncols = 1, data = [1]\<rparr>)] None None"
proof -
  let ?fwd = "\<lambda>(h :: call list) (src :: int tensor) (am :: real tensor). tmap real_of_int src"
  let ?self = "\<lparr>pad_token_id = 0, ignore_index = - 100, global_step = 0,
         gradient_accumulation_steps = 1, steps_per_epoch = 2, max_grad_norm = 1\<rparr>"
  let ?lf = "BCEWithLogitsLoss ''none'' None"
  let ?st = "\<lparr>total_loss = 0, steps = 0, calls = [ModelTrain], n_pred_total = 0,
              n_pred_correct = 0\<rparr>"
  let ?dl = "[(\<lparr>nrows = 1, ncols = 1, data = [3 :: int]\<rparr>, \<lparr>nrows = 1, ncols = 1, data = [1 :: real]\<rparr>),
         (\<lparr>nrows = 1, ncols = 1, data = [- 2]\<rparr>, \<lparr>nrows = 1, ncols = 1, data = [1]\<rparr>),
         (\<lparr>nrows = 1, ncols = 1, data = [4]\<rparr>, \<lparr>nrows = 1, ncols = 1, data = [0]\<rparr>)]"
  have h1: "gradient_accumulation_steps ?self = 1" "steps_per_epoch ?self = int 2"
    "1 \<le> (2 :: nat)" "2 \<le> length ?dl" "steps ?st = 0"
    by simp_all
  have h2: "\<forall>b \<in> set (take 2 ?dl). well_shaped ?fwd b"
    by (simp add: well_shaped_def wf_tensor_def tmap_def shape_def)
  from train_processes_steps_per_epoch_batches [OF h1(1,2,3,4) h2 h1(5), of ?lf "[]" None None]
  obtain st' where r: "train_loop ?fwd ?self ?lf ?st 0 ?dl = Inr st'" "steps st' = 2"
    and t: "train ?fwd ?self [] ?dl None None = train ?fwd ?self [] (take 2 ?dl) None None"
    by blast
  have "map_sum fst steps (train_loop ?fwd ?self ?lf ?st 0 ?dl) = Inr 2"
    unfolding r(1) by (simp add: r(2))
  moreover have "take 2 ?dl = [(\<lparr>nrows = 1, ncols = 1, data = [3 :: int]\<rparr>, \<lparr>nrows = 1, ncols = 1, data = [1 :: real]\<rparr>),
         (\<lparr>nrows = 1, ncols = 1, data = [- 2]\<rparr>, \<lparr>nrows = 1, ncols = 1, data = [1]\<rparr>)]"
    by simp
  ultimately show ?thesis using t by (simp only:)
qed

text \<open>
  The claim as first stated, for every \<open>N\<close>, fails at \<open>N = 0\<close>: the test that ends the
  epoch is made after a batch, when the step count is already 1, so with a budget of 0
  a data loader of two batches is processed whole.
\<close>

theorem train_zero_budget_counterexample:
  "gradient_accumulation_steps \<lparr>pad_token_id = 0, ignore_index = - 100, global_step = 0,
         gradient_accumulation_steps = 1, steps_per_epoch = 0, max_grad_norm = 1\<rparr> = 1
   \<and> steps_per_epoch \<lparr>pad_token_id = 0, ignore_index = - 100, global_step = 0,
         gradient_accumulation_steps = 1, steps_per_epoch = 0, max_grad_norm = 1\<rparr> = 0
   \<and> map_sum fst steps
     (train_loop (\<lambda>h src am. tmap real_of_int src)
        \<lparr>pad_token_id = 0, ignore_index = - 100, global_step = 0,
         gradient_accumulation_steps = 1, steps_per_epoch = 0, max_grad_norm = 1\<rparr>
        (BCEWithLogitsLoss ''none'' None)
        \<lparr>total_loss = 0, steps = 0, calls = [ModelTrain], n_pred_total = 0, n_pred_correct = 0\<rparr> 0
        [(\<lparr>nrows = 1, ncols = 1, data = [3]\<rparr>, \<lparr>nrows = 1, ncols = 1, data = [1]\<rparr>),
         (\<lparr>nrows = 1, ncols = 1, data = [- 2]\<rparr>, \<lparr>nrows = 1, ncols = 1, data = [1]\<rparr>)])
   = Inr 2"
  by (simp add: train_batch_def Let_def tmap_def shape_def compute_correct_def flatten_def
      mask_index_def float_def long_def tmul_def mean_last_first_def)

subsection \<open>Counting the batch indices that step the optimizer\<close>

lemma int_mod_eq_0_nat: "0 < g \<Longrightarrow> int k mod g = 0 \<longleftrightarrow> k mod nat g = 0"
proof -
  assume g: "0 < g"
  have "int (k mod nat g) = int k mod g" using g by (simp add: zmod_int)
  then show ?thesis by (metis of_nat_eq_0_iff)
qed

lemma ceil_div_Suc:
  assumes "0 < (G :: nat)"
  shows "(Suc n + G - 1) div G = (n + G - 1) div G + (if n mod G = 0 then 1 else 0)"
proof -
  let ?q = "n div G" and ?r = "n mod G"
  have n: "n = ?r + ?q * G" by simp
  have l: "(Suc n + G - 1) div G = Suc ?q"
  proof -
    have "Suc n + G - 1 = ?r + Suc ?q * G" using n by simp
    then have "(Suc n + G - 1) div G = (?r + Suc ?q * G) div G" by simp
    also have "\<dots> = Suc ?q + ?r div G" using assms by (simp only: div_mult_self1) 
    finally show ?thesis using assms by simp
  qed
  show ?thesis
  proof (cases "?r = 0")
    case True
    have "n + G - 1 = (G - 1) + ?q * G" using n True assms by simp
    then have "(n + G - 1) div G = ((G - 1) + ?q * G) div G" by simp
    also have "\<dots> = ?q + (G - 1) div G" using assms by (simp only: div_mult_self1)
    finally have "(n + G - 1) div G = ?q" using assms by simp
    with l True show ?thesis by simp
  next
    case False
    have "0 < ?r" using False by simp
    moreover have "n = ?r + ?q * G" by simp
    ultimately have "n + G - 1 = (?r - 1) + (?q * G + G)" by linarith
    then have "n + G - 1 = (?r - 1) + Suc ?q * G" by simp
    then have "(n + G - 1) div G = ((?r - 1) + Suc ?q * G) div G" by simp
    also have "\<dots> = Suc ?q + (?r - 1) div G" using assms by (simp only: div_mult_self1)
    also have "(?r - 1) div G = 0" using assms
      by (intro div_less) (metis less_imp_diff_less mod_less_divisor)
    finally have "(n + G - 1) div G = Suc ?q" by simp
    with l False show ?thesis by simp
  qed
qed

lemma count_divisible_nat:
  "0 < G \<Longrightarrow> length (filter (\<lambda>k. k mod G = 0) [0..<n]) = (n + G - 1) div G"
proof (induction n)
  case 0
  then show ?case by simp
next
  case (Suc n)
  have "length (filter (\<lambda>k. k mod G = 0) [0..<Suc n])
      = length (filter (\<lambda>k. k mod G = 0) [0..<n]) + (if n mod G = 0 then 1 else 0)"
    by simp
  then show ?case
    unfolding Suc.IH [OF Suc.prems] ceil_div_Suc [OF Suc.prems, of n] .
qed

lemma count_divisible_dvd:
  assumes "0 < g" "g dvd int n"
  shows "int (length (filter (\<lambda>k. int k mod g = 0) [0..<n])) = py_int (real n / real_of_int g)"
proof -
  let ?G = "nat g"
  have G: "0 < ?G" using assms(1) by simp
  have f: "filter (\<lambda>k. int k mod g = 0) [0..<n] = filter (\<lambda>k. k mod ?G = 0) [0..<n]"
    using int_mod_eq_0_nat [OF assms(1)] by (intro filter_cong) auto
  from assms obtain q where q: "int n = g * q" by (auto simp: dvd_def)
  have q0: "0 \<le> q" using q assms(1) by (metis of_nat_0_le_iff zero_le_mult_iff not_less)
  have n: "n = ?G * nat q" using q q0 assms(1) by (metis nat_int nat_mult_distrib less_imp_le)
  have "(n + ?G - 1) div ?G = nat q"
  proof -
    have "n + ?G - 1 = (?G - 1) + nat q * ?G" using G n by (simp add: algebra_simps)
    then have "(n + ?G - 1) div ?G = ((?G - 1) + nat q * ?G) div ?G" by simp
    also have "\<dots> = nat q + (?G - 1) div ?G" using G by (simp only: div_mult_self1)
    finally show ?thesis using G by simp
  qed
  then have c: "int (length (filter (\<lambda>k. int k mod g = 0) [0..<n])) = q"
    unfolding f count_divisible_nat [OF G] using q0 by simp
  have "real n / real_of_int g = real_of_int q"
  proof -
    have "real n = real_of_int (int n)" by simp
    also have "\<dots> = real_of_int g * real_of_int q" unfolding q by simp
    finally show ?thesis using assms(1) by simp
  qed
  then have "py_int (real n / real_of_int g) = q" using q0 by (simp add: py_int_def)
  with c show ?thesis by simp
qed


subsection \<open>The result of an epoch\<close>

lemma optimizer_steps_append_ModelTrain: "optimizer_steps (h @ [ModelTrain]) = optimizer_steps h"
  by (simp add: optimizer_steps_def)

lemma train_Inr:
  assumes "train fwd self h dl loss_type pos_weight = Inr (loss, acc, self', h')"
  shows "\<exists>st. train_loop fwd self (BCEWithLogitsLoss ''none'' pos_weight)
              \<lparr>total_loss = 0, steps = 0, calls = h @ [ModelTrain],
               n_pred_total = 0, n_pred_correct = 0\<rparr> 0 dl = Inr st
          \<and> gradient_accumulation_steps self \<noteq> 0 \<and> steps st \<noteq> 0 \<and> n_pred_total st \<noteq> 0
          \<and> loss = total_loss st / (real (steps st) / real_of_int (gradient_accumulation_steps self))
          \<and> acc = real_of_int (n_pred_correct st) / n_pred_total st
          \<and> self' = self\<lparr>global_step := global_step self
                + py_int (real (steps st) / real_of_int (gradient_accumulation_steps self))\<rparr>
          \<and> h' = calls st"
  using assms
  by (auto simp: train_def Let_def get_loss_fn_def split: sum.splits if_splits)


text \<open>
  Claim C9. On a data loader without batches the epoch does not return: the step count
  is zero and the final division raises the division error (with a supported loss
  kind; any other kind has failed before). Likewise, when every label of the epoch
  equals the ignore index the epoch does not return; when its batches are processed
  without an error, the failure is the division error of the accuracy, whose divisor
  (the total of valid labels) is zero.
\<close>

theorem train_division_by_zero:
  "(\<forall>r. train fwd self h [] loss_type pos_weight \<noteq> Inr r)
   \<and> (kwargs_get loss_type ''binary_cross_entropy'' = ''binary_cross_entropy'' \<longrightarrow>
        train fwd self h [] loss_type pos_weight = Inl (ZeroDivisionError, h @ [ModelTrain]))
   \<and> ((\<forall>(src, lab) \<in> set dl. \<forall>y \<in> set (data lab). y = real_of_int (ignore_index self)) \<longrightarrow>
        (\<forall>r. train fwd self h dl loss_type pos_weight \<noteq> Inr r)
        \<and> (kwargs_get loss_type ''binary_cross_entropy'' = ''binary_cross_entropy''
             \<and> gradient_accumulation_steps self \<noteq> 0 \<and> (\<forall>b \<in> set dl. well_shaped fwd b) \<longrightarrow>
             (\<exists>st. train_loop fwd self (BCEWithLogitsLoss ''none'' pos_weight)
                     \<lparr>total_loss = 0, steps = 0, calls = h @ [ModelTrain],
                      n_pred_total = 0, n_pred_correct = 0\<rparr> 0 dl = Inr st
                   \<and> n_pred_total st = 0
                   \<and> train fwd self h dl loss_type pos_weight
                       = Inl (ZeroDivisionError, calls st))))"
proof -
  let ?st0 = "\<lparr>total_loss = 0, steps = 0, calls = h @ [ModelTrain],
               n_pred_total = 0, n_pred_correct = 0\<rparr>"
  let ?lf = "BCEWithLogitsLoss ''none'' pos_weight"
  have A: "train fwd self h [] loss_type pos_weight \<noteq> Inr r" for r
    by (auto simp: train_def Let_def split: sum.splits)
  have B: "train fwd self h [] loss_type pos_weight = Inl (ZeroDivisionError, h @ [ModelTrain])"
    if "kwargs_get loss_type ''binary_cross_entropy'' = ''binary_cross_entropy''"
    using that by (simp add: train_def Let_def get_loss_fn_def)
  have C: "(\<forall>r. train fwd self h dl loss_type pos_weight \<noteq> Inr r)
        \<and> (kwargs_get loss_type ''binary_cross_entropy'' = ''binary_cross_entropy''
             \<and> gradient_accumulation_steps self \<noteq> 0 \<and> (\<forall>b \<in> set dl. well_shaped fwd b) \<longrightarrow>
             (\<exists>st. train_loop fwd self ?lf ?st0 0 dl = Inr st \<and> n_pred_total st = 0
                   \<and> train fwd self h dl loss_type pos_weight
                       = Inl (ZeroDivisionError, calls st)))"
    if ign: "\<forall>(src, lab) \<in> set dl. \<forall>y \<in> set (data lab). y = real_of_int (ignore_index self)"
  proof -
    have v: "valid_labels self b = 0" if "b \<in> set dl" for b
      using ign that by (cases b) (auto simp: valid_labels_def filter_empty_conv)
    have z: "n_pred_total st = 0" if "train_loop fwd self ?lf ?st0 0 dl = Inr st" for st
    proof -
      from train_loop_Inr [OF that] obtain n where
        "n_pred_total st = n_pred_total ?st0 + real (sum_list (map (valid_labels self) (take n dl)))"
        by blast
      moreover have "sum_list (map (valid_labels self) (take n dl)) = 0"
        using v by (auto dest: in_set_takeD)
      ultimately show ?thesis by simp
    qed
    have C1: "train fwd self h dl loss_type pos_weight \<noteq> Inr r" for r
    proof
      assume "train fwd self h dl loss_type pos_weight = Inr r"
      then obtain loss acc self' h' where
        "train fwd self h dl loss_type pos_weight = Inr (loss, acc, self', h')"
        by (cases r) auto
      from train_Inr [OF this] z show False by blast
    qed
    have C2: "\<exists>st. train_loop fwd self ?lf ?st0 0 dl = Inr st \<and> n_pred_total st = 0
                   \<and> train fwd self h dl loss_type pos_weight = Inl (ZeroDivisionError, calls st)"
      if k: "kwargs_get loss_type ''binary_cross_entropy'' = ''binary_cross_entropy''"
        and g: "gradient_accumulation_steps self \<noteq> 0" and w: "\<forall>b \<in> set dl. well_shaped fwd b"
    proof -
      from train_loop_returns [OF g w] obtain st where st: "train_loop fwd self ?lf ?st0 0 dl = Inr st"
        by blast
      have "train fwd self h dl loss_type pos_weight = Inl (ZeroDivisionError, calls st)"
        using st z [OF st] g by (simp add: train_def Let_def get_loss_fn_def k)
      with st z [OF st] show ?thesis by blast
    qed
    from C1 C2 show ?thesis by blast
  qed
  from A B C show ?thesis by blast
qed

theorem train_division_by_zero_witness:
  "train (\<lambda>h src am. tmap real_of_int src)
        \<lparr>pad_token_id = 0, ignore_index = - 100, global_step = 0,
         gradient_accumulation_steps = 1, steps_per_epoch = 5, max_grad_norm = 1\<rparr> [] [] None None
     = Inl (ZeroDivisionError, [ModelTrain])
   \<and> map_sum fst (global_step \<circ> fst \<circ> snd \<circ> snd)
       (train (\<lambda>h src am. tmap real_of_int src)
        \<lparr>pad_token_id = 0, ignore_index = - 100, global_step = 0,
         gradient_accumulation_steps = 1, steps_per_epoch = 5, max_grad_norm = 1\<rparr> []
        [(\<lparr>nrows = 1, ncols = 2, data = [3, 4]\<rparr>, \<lparr>nrows = 1, ncols = 2, data = [- 100, - 100]\<rparr>)]
        None None)
     = Inl ZeroDivisionError"
proof -
  let ?fwd = "\<lambda>(h :: call list) (src :: int tensor) (am :: real tensor). tmap real_of_int src"
  let ?self = "\<lparr>pad_token_id = 0, ignore_index = - 100, global_step = 0,
         gradient_accumulation_steps = 1, steps_per_epoch = 5, max_grad_norm = 1\<rparr>"
  let ?dl = "[(\<lparr>nrows = 1, ncols = 2, data = [3, 4 :: int]\<rparr>,
               \<lparr>nrows = 1, ncols = 2, data = [- 100, - 100 :: real]\<rparr>)]"
  have k: "kwargs_get None ''binary_cross_entropy'' = ''binary_cross_entropy''"
    by (simp add: kwargs_get_def)
  have ign: "\<forall>(src, lab) \<in> set ?dl. \<forall>y \<in> set (data lab). y = real_of_int (ignore_index ?self)"
    by simp
  have g: "gradient_accumulation_steps ?self \<noteq> 0" by simp
  have w: "\<forall>b \<in> set ?dl. well_shaped ?fwd b"
    by (simp add: well_shaped_def wf_tensor_def tmap_def shape_def)
  note t = train_division_by_zero [of ?fwd ?self "[]" None None ?dl]
  from t k have e: "train ?fwd ?self [] [] None None = Inl (ZeroDivisionError, [ModelTrain])"
    by simp
  from t ign k g w obtain st :: train_state where
    "train ?fwd ?self [] ?dl None None = Inl (ZeroDivisionError, calls st)"
    by blast
  then have "map_sum fst (global_step \<circ> fst \<circ> snd \<circ> snd) (train ?fwd ?self [] ?dl None None)
     = Inl ZeroDivisionError"
    by simp
  with e show ?thesis by blast
qed


lemma map2_masked:
  "map2 (*) (map2 f xs ys) (map g ys) = map2 (\<lambda>x y. f x y * g y) xs ys"
proof (induction xs arbitrary: ys)
  case Nil
  then show ?case by simp
next
  case (Cons x xs)
  then show ?case by (cases ys) simp_all
qed

lemma train_batch_stats:
  assumes "train_batch fwd self (BCEWithLogitsLoss r pos_weight) st i b = Inr st'"
  shows "total_loss st' = total_loss st + batch_loss fwd self pos_weight (calls st) b"
    and "n_pred_correct st' = n_pred_correct st + batch_correct fwd self (calls st) b"
    and "calls st' = batch_history fwd self pos_weight (calls st) i b"
proof -
  obtain src lab where b: "b = (src, lab)" by (cases b)
  let ?am = "tmap (\<lambda>x. float (x \<noteq> pad_token_id self)) src"
  let ?lm = "tmap (\<lambda>y. float (y \<noteq> real_of_int (ignore_index self))) lab"
  let ?lg = "fwd (calls st @ [ZeroGrad]) src ?am"
  let ?l0 = "\<lparr>nrows = nrows ?lg, ncols = ncols ?lg,
              data = map2 (bce_with_logits pos_weight) (data ?lg) (data lab)\<rparr>"
  let ?g = "gradient_accumulation_steps self"
  let ?loss = "if ?g > 1 then mean_last_first (tmul ?l0 ?lm) / real_of_int ?g
               else mean_last_first (tmul ?l0 ?lm)"
  let ?h = "calls st @ [ZeroGrad, Forward src ?am, Backward ?loss, ClipGradNorm (max_grad_norm self)]
       @ (if int i mod ?g = 0 then [OptimizerStep, SchedulerStep] else [])"
  from assms have sh: "shape lab = shape ?lg"
    by (auto simp: train_batch_def b Let_def split: if_splits sum.splits)
  then have lc: "loss_call (BCEWithLogitsLoss r pos_weight) ?lg lab = Inr ?l0" by simp
  from assms lc obtain n ps ls where c: "compute_correct ?lg lab ?lm (1 / 2) = Inr (n, ps, ls)"
    and st': "st' = st\<lparr>steps := steps st + 1, total_loss := total_loss st + ?loss,
          n_pred_total := n_pred_total st + sum_list (flatten ?lm),
          n_pred_correct := n_pred_correct st + n,
          calls := (if i mod 50 = 0 then ?h @ [EmptyCache] else ?h)\<rparr>"
    by (auto simp: train_batch_def b Let_def simp del: loss_call.simps
        split: if_splits sum.splits prod.splits)
  have t: "tmul ?l0 ?lm = \<lparr>nrows = nrows ?lg, ncols = ncols ?lg,
        data = map2 (\<lambda>x y. bce_with_logits pos_weight x y
                              * float (y \<noteq> real_of_int (ignore_index self)))
                 (data ?lg) (data lab)\<rparr>"
    by (simp add: tmul_def tmap_def map2_masked)
  have bl: "batch_loss fwd self pos_weight (calls st) b = ?loss"
    unfolding t by (simp add: batch_loss_def b Let_def)
  have len: "length (data ?lm) = length (data lab)" by (simp add: tmap_def)
  have f: "filter (\<lambda>i. data ?lm ! i \<noteq> 0
                  \<and> real_of_int (long (sigmoid (data ?lg ! i) > 1 / 2)) = data lab ! i)
                [0..<length (data ?lm)]
        = filter (\<lambda>i. data lab ! i \<noteq> real_of_int (ignore_index self)
                  \<and> real_of_int (long (sigmoid (data ?lg ! i) > 1 / 2)) = data lab ! i)
                [0..<length (data lab)]"
    unfolding len by (rule filter_cong) (auto simp: tmap_def float_def)
  have bc: "batch_correct fwd self (calls st) b = n"
    unfolding compute_correct_Inr(5) [OF c] f by (simp add: batch_correct_def b Let_def)
  show "total_loss st' = total_loss st + batch_loss fwd self pos_weight (calls st) b"
    unfolding bl st' by simp
  show "n_pred_correct st' = n_pred_correct st + batch_correct fwd self (calls st) b"
    unfolding bc st' by simp
  show "calls st' = batch_history fwd self pos_weight (calls st) i b"
    unfolding st' batch_history_def bl by (simp add: b)
qed

lemma train_loop_stats:
  "train_loop fwd self (BCEWithLogitsLoss r pos_weight) st i dl = Inr st' \<Longrightarrow>
   total_loss st' = total_loss st
      + sum_list (map fst (epoch_stats fwd self pos_weight (calls st) i
                             (take (steps st' - steps st) dl)))
   \<and> n_pred_correct st' = n_pred_correct st
      + sum_list (map snd (epoch_stats fwd self pos_weight (calls st) i
                             (take (steps st' - steps st) dl)))"
proof (induction dl arbitrary: st i)
  case Nil
  then show ?case by simp
next
  case (Cons b dl)
  let ?lf = "BCEWithLogitsLoss r pos_weight"
  from Cons.prems obtain st1 where b: "train_batch fwd self ?lf st i b = Inr st1"
    by (auto split: sum.splits)
  note tb = train_batch_Inr(2) [OF b] and ts = train_batch_stats [OF b]
  show ?case
  proof (cases "real (steps st1) / real_of_int (gradient_accumulation_steps self)
                  = real_of_int (steps_per_epoch self)")
    case True
    with Cons.prems b have "st' = st1" by simp
    then show ?thesis using tb ts by simp
  next
    case False
    with Cons.prems b have r: "train_loop fwd self ?lf st1 (i + 1) dl = Inr st'" by simp
    from train_loop_Inr [OF r] obtain n where n: "steps st' = steps st1 + n" by blast
    have d: "steps st' - steps st = Suc (steps st' - steps st1)" using n tb by simp
    from Cons.IH [OF r] show ?thesis
      unfolding d using ts by simp
  qed
qed

text \<open>
  Claim C4, as amended. An epoch that returns has processed at least one batch and seen
  at least one valid label. It returns the sum of the losses of the batches processed
  divided by the number of steps (the number of batches processed over
  \<^verbatim>\<open>gradient_accumulation_steps\<close>), and the number of correct predictions of the batches
  processed divided by the number of their valid labels, and it advances the step
  counter by the integer part of the number of steps. When
  \<^verbatim>\<open>gradient_accumulation_steps\<close> is positive and divides the number of batches
  processed (always so when it is 1), the advance is the number of optimizer steps
  taken in the epoch. An epoch on a non-empty data loader of well-shaped batches whose
  first batch has a valid label returns.
\<close>

theorem train_result_and_step_counter:
  "(train fwd self h dl loss_type pos_weight = Inr (loss, acc, self', h') \<longrightarrow>
     (\<exists>st. train_loop fwd self (BCEWithLogitsLoss ''none'' pos_weight)
              \<lparr>total_loss = 0, steps = 0, calls = h @ [ModelTrain],
               n_pred_total = 0, n_pred_correct = 0\<rparr> 0 dl = Inr st
        \<and> 1 \<le> steps st \<and> steps st \<le> length dl \<and> h' = calls st
        \<and> loss = sum_list (map fst (epoch_stats fwd self pos_weight (h @ [ModelTrain]) 0
                                      (take (steps st) dl)))
                 / (real (steps st) / real_of_int (gradient_accumulation_steps self))
        \<and> acc = real_of_int (sum_list (map snd (epoch_stats fwd self pos_weight
                                      (h @ [ModelTrain]) 0 (take (steps st) dl))))
                 / real (sum_list (map (valid_labels self) (take (steps st) dl)))
        \<and> sum_list (map (valid_labels self) (take (steps st) dl)) \<noteq> 0
        \<and> global_step self' = global_step self
              + py_int (real (steps st) / real_of_int (gradient_accumulation_steps self))
        \<and> (0 < gradient_accumulation_steps self
             \<and> gradient_accumulation_steps self dvd int (steps st) \<longrightarrow>
             global_step self' = global_step self
               + (int (optimizer_steps h') - int (optimizer_steps h)))))
   \<and> (dl \<noteq> [] \<and> 0 < gradient_accumulation_steps self \<and> (\<forall>b \<in> set dl. well_shaped fwd b)
        \<and> valid_labels self (hd dl) \<noteq> 0
        \<and> kwargs_get loss_type ''binary_cross_entropy'' = ''binary_cross_entropy''
      \<longrightarrow> (\<exists>r. train fwd self h dl loss_type pos_weight = Inr r))"
proof -
  let ?g = "gradient_accumulation_steps self"
  let ?st0 = "\<lparr>total_loss = 0, steps = 0, calls = h @ [ModelTrain],
               n_pred_total = 0, n_pred_correct = 0\<rparr>"
  let ?lf = "BCEWithLogitsLoss ''none'' pos_weight"
  have A: "\<exists>st. train_loop fwd self ?lf ?st0 0 dl = Inr st
        \<and> 1 \<le> steps st \<and> steps st \<le> length dl \<and> h' = calls st
        \<and> loss = sum_list (map fst (epoch_stats fwd self pos_weight (h @ [ModelTrain]) 0
                                      (take (steps st) dl)))
                 / (real (steps st) / real_of_int ?g)
        \<and> acc = real_of_int (sum_list (map snd (epoch_stats fwd self pos_weight
                                      (h @ [ModelTrain]) 0 (take (steps st) dl))))
                 / real (sum_list (map (valid_labels self) (take (steps st) dl)))
        \<and> sum_list (map (valid_labels self) (take (steps st) dl)) \<noteq> 0
        \<and> global_step self' = global_step self + py_int (real (steps st) / real_of_int ?g)
        \<and> (0 < ?g \<and> ?g dvd int (steps st) \<longrightarrow>
             global_step self' = global_step self
               + (int (optimizer_steps h') - int (optimizer_steps h)))"
    if r: "train fwd self h dl loss_type pos_weight = Inr (loss, acc, self', h')"
  proof -
    from train_Inr [OF r] obtain st where st: "train_loop fwd self ?lf ?st0 0 dl = Inr st"
      "steps st \<noteq> 0" "n_pred_total st \<noteq> 0"
      "loss = total_loss st / (real (steps st) / real_of_int ?g)"
      "acc = real_of_int (n_pred_correct st) / n_pred_total st"
      "self' = self\<lparr>global_step := global_step self + py_int (real (steps st) / real_of_int ?g)\<rparr>"
      "h' = calls st"
      by blast
    from train_loop_Inr [OF st(1)] obtain n where n: "n \<le> length dl" "steps st = steps ?st0 + n"
      "optimizer_steps (calls st) = optimizer_steps (calls ?st0)
          + length (filter (\<lambda>k. int k mod ?g = 0) [0..<0 + n])"
      "n_pred_total st = n_pred_total ?st0 + real (sum_list (map (valid_labels self) (take n dl)))"
      by blast
    have ns: "n = steps st" using n(2) by simp
    have tl: "total_loss st = sum_list (map fst (epoch_stats fwd self pos_weight
                                  (h @ [ModelTrain]) 0 (take (steps st) dl)))"
      and nc: "n_pred_correct st = sum_list (map snd (epoch_stats fwd self pos_weight
                                  (h @ [ModelTrain]) 0 (take (steps st) dl)))"
      using train_loop_stats [OF st(1)] by simp_all
    have nt: "n_pred_total st = real (sum_list (map (valid_labels self) (take (steps st) dl)))"
      using n(4) ns by simp
    have gs: "global_step self' = global_step self + py_int (real (steps st) / real_of_int ?g)"
      unfolding st(6) by simp
    have os: "global_step self' = global_step self
               + (int (optimizer_steps h') - int (optimizer_steps h))"
      if "0 < ?g \<and> ?g dvd int (steps st)"
    proof -
      have "int (length (filter (\<lambda>k. int k mod ?g = 0) [0..<steps st]))
          = py_int (real (steps st) / real_of_int ?g)"
        using that by (intro count_divisible_dvd) simp_all
      then show ?thesis
        unfolding gs st(7) using n(3) by (simp add: ns optimizer_steps_append_ModelTrain)
    qed
    have c1: "1 \<le> steps st" using st(2) by simp
    have c2: "steps st \<le> length dl" using n(1) ns by simp
    have c3: "loss = sum_list (map fst (epoch_stats fwd self pos_weight (h @ [ModelTrain]) 0
                                      (take (steps st) dl)))
                 / (real (steps st) / real_of_int ?g)"
      using st(4) unfolding tl .
    have c4: "acc = real_of_int (sum_list (map snd (epoch_stats fwd self pos_weight
                                      (h @ [ModelTrain]) 0 (take (steps st) dl))))
                 / real (sum_list (map (valid_labels self) (take (steps st) dl)))"
      using st(5) unfolding nc [symmetric] nt .
    have c5: "sum_list (map (valid_labels self) (take (steps st) dl)) \<noteq> 0"
      using st(3) unfolding nt by simp
    from st(1) c1 c2 st(7) c3 c4 c5 gs os show ?thesis by blast
  qed
  have B: "\<exists>r. train fwd self h dl loss_type pos_weight = Inr r"
    if p: "dl \<noteq> [] \<and> 0 < ?g \<and> (\<forall>b \<in> set dl. well_shaped fwd b)
        \<and> valid_labels self (hd dl) \<noteq> 0
        \<and> kwargs_get loss_type ''binary_cross_entropy'' = ''binary_cross_entropy''"
  proof -
    have g: "?g \<noteq> 0" using p by simp
    from train_loop_returns [OF g, of dl fwd ?lf ?st0 0] p
    obtain st where st: "train_loop fwd self ?lf ?st0 0 dl = Inr st" by blast
    from train_loop_Inr [OF st] p obtain n where n: "steps st = steps ?st0 + n" "1 \<le> n"
      "n_pred_total st = n_pred_total ?st0 + real (sum_list (map (valid_labels self) (take n dl)))"
      by blast
    obtain b dl' where dl: "dl = b # dl'" using p by (cases dl) auto
    obtain n' where n': "n = Suc n'" using n(2) by (cases n) auto
    have t: "n_pred_total st \<noteq> 0"
      using p n(3) by (simp add: dl n')
    have s: "real (steps st) / real_of_int ?g \<noteq> 0" using n(1,2) g by simp
    show ?thesis
      using st t s g p by (simp add: train_def Let_def get_loss_fn_def)
  qed
  from A B show ?thesis by blast
qed

lemma bce_zero_logit: "bce_with_logits None 0 y = ln 2"
proof -
  have s: "sigmoid 0 = 1 / 2" using sigmoid_eq_half [of 0] by blast
  have l: "ln (1 / 2 :: real) = - ln 2" by (simp add: ln_div)
  have "bce_with_logits None 0 y = - (y * (- ln 2) + (1 - y) * (- ln 2))"
    unfolding bce_with_logits_def s using l by simp
  also have "\<dots> = ln 2" by (simp add: algebra_simps)
  finally show ?thesis .
qed

theorem train_result_and_step_counter_witness:
  "map_sum fst fst
     (train (\<lambda>h src am. tmap real_of_int src)
        \<lparr>pad_token_id = 1, ignore_index = - 100, global_step = 0,
         gradient_accumulation_steps = 2, steps_per_epoch = 1, max_grad_norm = 1\<rparr> []
        [(\<lparr>nrows = 1, ncols = 1, data = [0]\<rparr>, \<lparr>nrows = 1, ncols = 1, data = [0]\<rparr>),
         (\<lparr>nrows = 1, ncols = 1, data = [0]\<rparr>, \<lparr>nrows = 1, ncols = 1, data = [1]\<rparr>),
         (\<lparr>nrows = 1, ncols = 1, data = [4]\<rparr>, \<lparr>nrows = 1, ncols = 1, data = [0]\<rparr>)] None None)
   = Inr (ln 2)
   \<and> map_sum fst (fst \<circ> snd)
     (train (\<lambda>h src am. tmap real_of_int src)
        \<lparr>pad_token_id = 1, ignore_index = - 100, global_step = 0,
         gradient_accumulation_steps = 2, steps_per_epoch = 1, max_grad_norm = 1\<rparr> []
        [(\<lparr>nrows = 1, ncols = 1, data = [0]\<rparr>, \<lparr>nrows = 1, ncols = 1, data = [0]\<rparr>),
         (\<lparr>nrows = 1, ncols = 1, data = [0]\<rparr>, \<lparr>nrows = 1, ncols = 1, data = [1]\<rparr>),
         (\<lparr>nrows = 1, ncols = 1, data = [4]\<rparr>, \<lparr>nrows = 1, ncols = 1, data = [0]\<rparr>)] None None)
   = Inr (1 / 2)
   \<and> map_sum fst (global_step \<circ> fst \<circ> snd \<circ> snd)
     (train (\<lambda>h src am. tmap real_of_int src)
        \<lparr>pad_token_id = 1, ignore_index = - 100, global_step = 0,
         gradient_accumulation_steps = 2, steps_per_epoch = 1, max_grad_norm = 1\<rparr> []
        [(\<lparr>nrows = 1, ncols = 1, data = [0]\<rparr>, \<lparr>nrows = 1, ncols = 1, data = [0]\<rparr>),
         (\<lparr>nrows = 1, ncols = 1, data = [0]\<rparr>, \<lparr>nrows = 1, ncols = 1, data = [1]\<rparr>),
         (\<lparr>nrows = 1, ncols = 1, data = [4]\<rparr>, \<lparr>nrows = 1, ncols = 1, data = [0]\<rparr>)] None None)
   = Inr 1
   \<and> map_sum fst (optimizer_steps \<circ> snd \<circ> snd \<circ> snd)
     (train (\<lambda>h src am. tmap real_of_int src)
        \<lparr>pad_token_id = 1, ignore_index = - 100, global_step = 0,
         gradient_accumulation_steps = 2, steps_per_epoch = 1, max_grad_norm = 1\<rparr> []
        [(\<lparr>nrows = 1, ncols = 1, data = [0]\<rparr>, \<lparr>nrows = 1, ncols = 1, data = [0]\<rparr>),
         (\<lparr>nrows = 1, ncols = 1, data = [0]\<rparr>, \<lparr>nrows = 1, ncols = 1, data = [1]\<rparr>),
         (\<lparr>nrows = 1, ncols = 1, data = [4]\<rparr>, \<lparr>nrows = 1, ncols = 1, data = [0]\<rparr>)] None None)
   = Inr 1"
proof -
  let ?fwd = "\<lambda>(h :: call list) (src :: int tensor) (am :: real tensor). tmap real_of_int src"
  let ?self = "\<lparr>pad_token_id = 1, ignore_index = - 100, global_step = 0,
         gradient_accumulation_steps = 2, steps_per_epoch = 1, max_grad_norm = 1\<rparr>"
  let ?lf = "BCEWithLogitsLoss ''none'' None"
  let ?st = "\<lparr>total_loss = 0, steps = 0, calls = [] @ [ModelTrain], n_pred_total = 0,
              n_pred_correct = 0\<rparr>"
  let ?dl = "[(\<lparr>nrows = 1, ncols = 1, data = [0 :: int]\<rparr>, \<lparr>nrows = 1, ncols = 1, data = [0 :: real]\<rparr>),
         (\<lparr>nrows = 1, ncols = 1, data = [0]\<rparr>, \<lparr>nrows = 1, ncols = 1, data = [1]\<rparr>),
         (\<lparr>nrows = 1, ncols = 1, data = [4]\<rparr>, \<lparr>nrows = 1, ncols = 1, data = [0]\<rparr>)]"
  have p: "?dl \<noteq> [] \<and> 0 < gradient_accumulation_steps ?self \<and> (\<forall>b \<in> set ?dl. well_shaped ?fwd b)
        \<and> valid_labels ?self (hd ?dl) \<noteq> 0
        \<and> kwargs_get None ''binary_cross_entropy'' = ''binary_cross_entropy''"
    by (simp add: well_shaped_def wf_tensor_def tmap_def shape_def valid_labels_def kwargs_get_def)
  have "\<exists>r. train ?fwd ?self [] ?dl None None = Inr r"
    using train_result_and_step_counter [of ?fwd ?self "[]" ?dl None None] p by blast
  then obtain loss acc self' h' where
    r: "train ?fwd ?self [] ?dl None None = Inr (loss, acc, self', h')"
    by auto
  have two: "map_sum fst steps (train_loop ?fwd ?self ?lf ?st 0 ?dl) = Inr 2"
    by (simp add: train_batch_def Let_def tmap_def shape_def compute_correct_def flatten_def
        mask_index_def float_def long_def tmul_def mean_last_first_def)
  from train_result_and_step_counter [of ?fwd ?self "[]" ?dl None None loss acc self' h'] r
  obtain st where st: "train_loop ?fwd ?self ?lf ?st 0 ?dl = Inr st"
    "loss = sum_list (map fst (epoch_stats ?fwd ?self None ([] @ [ModelTrain]) 0
                                      (take (steps st) ?dl)))
                 / (real (steps st) / real_of_int (gradient_accumulation_steps ?self))"
    "acc = real_of_int (sum_list (map snd (epoch_stats ?fwd ?self None
                                      ([] @ [ModelTrain]) 0 (take (steps st) ?dl))))
                 / real (sum_list (map (valid_labels ?self) (take (steps st) ?dl)))"
    "global_step self' = global_step ?self
        + py_int (real (steps st) / real_of_int (gradient_accumulation_steps ?self))"
    "0 < gradient_accumulation_steps ?self \<and> gradient_accumulation_steps ?self dvd int (steps st)
      \<longrightarrow> global_step self' = global_step ?self + (int (optimizer_steps h') - int (optimizer_steps []))"
    by blast
  have s2: "steps st = 2" using two unfolding st(1) by simp
  have S: "epoch_stats ?fwd ?self None ([] @ [ModelTrain]) 0 (take 2 ?dl)
      = [(ln 2 / 2, 1), (ln 2 / 2, 0)]"
    by (simp add: batch_loss_def batch_correct_def Let_def tmap_def float_def long_def
        mean_last_first_def rows_def mean_def bce_zero_logit sigmoid_gt_half
        sigmoid_gt_half_nf upt_rec)
  have l: "loss = ln 2" using st(2) unfolding s2 S by simp
  have a: "acc = 1 / 2" using st(3) unfolding s2 S by (simp add: valid_labels_def)
  have g1: "global_step self' = 1" using st(4) by (simp add: s2 py_int_def)
  have "int (optimizer_steps h') = 1" using st(5) g1 by (simp add: s2 optimizer_steps_def)
  then have o1: "optimizer_steps h' = 1" by simp
  show ?thesis unfolding r by (simp add: l a g1 o1)
qed

text \<open>
  The claim as first stated fails in two ways. An epoch of one batch whose labels are
  all ignored does not return: the accuracy division raises. And with
  \<^verbatim>\<open>gradient_accumulation_steps = 2\<close> an epoch of three batches steps the optimizer
  twice (at the indices 0 and 2) and advances the step counter by 1.
\<close>

theorem train_result_and_step_counter_counterexample:
  "map_sum fst (global_step \<circ> fst \<circ> snd \<circ> snd)
     (train (\<lambda>h src am. tmap real_of_int src)
        \<lparr>pad_token_id = 0, ignore_index = - 100, global_step = 0,
         gradient_accumulation_steps = 1, steps_per_epoch = 5, max_grad_norm = 1\<rparr> []
        [(\<lparr>nrows = 1, ncols = 2, data = [3, 4]\<rparr>, \<lparr>nrows = 1, ncols = 2, data = [- 100, - 100]\<rparr>)]
        None None)
   = Inl ZeroDivisionError
   \<and> map_sum fst (global_step \<circ> fst \<circ> snd \<circ> snd)
     (train (\<lambda>h src am. tmap real_of_int src)
        \<lparr>pad_token_id = 0, ignore_index = - 100, global_step = 0,
         gradient_accumulation_steps = 2, steps_per_epoch = 5, max_grad_norm = 1\<rparr> []
        [(\<lparr>nrows = 1, ncols = 1, data = [3]\<rparr>, \<lparr>nrows = 1, ncols = 1, data = [1]\<rparr>),
         (\<lparr>nrows = 1, ncols = 1, data = [- 2]\<rparr>, \<lparr>nrows = 1, ncols = 1, data = [1]\<rparr>),
         (\<lparr>nrows = 1, ncols = 1, data = [4]\<rparr>, \<lparr>nrows = 1, ncols = 1, data = [0]\<rparr>)] None None)
   = Inr 1
   \<and> map_sum fst (optimizer_steps \<circ> snd \<circ> snd \<circ> snd)
     (train (\<lambda>h src am. tmap real_of_int src)
        \<lparr>pad_token_id = 0, ignore_index = - 100, global_step = 0,
         gradient_accumulation_steps = 2, steps_per_epoch = 5, max_grad_norm = 1\<rparr> []
        [(\<lparr>nrows = 1, ncols = 1, data = [3]\<rparr>, \<lparr>nrows = 1, ncols = 1, data = [1]\<rparr>),
         (\<lparr>nrows = 1, ncols = 1, data = [- 2]\<rparr>, \<lparr>nrows = 1, ncols = 1, data = [1]\<rparr>),
         (\<lparr>nrows = 1, ncols = 1, data = [4]\<rparr>, \<lparr>nrows = 1, ncols = 1, data = [0]\<rparr>)] None None)
   = Inr 2"
  by (simp add: train_def get_loss_fn_def kwargs_get_def train_batch_def Let_def tmap_def
      shape_def compute_correct_def flatten_def mask_index_def float_def long_def tmul_def
      mean_last_first_def py_int_def optimizer_steps_def)

subsection \<open>Evaluation\<close>

lemma eval_batch_Inr:
  assumes "eval_batch fwd self lf st b = Inr st'"
  shows "preds st' = preds st @ [fst (batch_vector fwd self (calls st) b)]"
    and "labels st' = labels st @ [snd (batch_vector fwd self (calls st) b)]"
    and "calls st' = calls st @ [Forward (fst b) (tmap (\<lambda>x. float (x \<noteq> pad_token_id self)) (fst b))]"
    and "steps st' = steps st + 1"
proof -
  obtain src lab where b: "b = (src, lab)" by (cases b)
  let ?am = "tmap (\<lambda>x. float (x \<noteq> pad_token_id self)) src"
  let ?lm = "tmap (\<lambda>y. float (y \<noteq> real_of_int (ignore_index self))) lab"
  let ?lg = "fwd (calls st) src ?am"
  from assms obtain n ps ls where c: "compute_correct ?lg lab ?lm (1 / 2) = Inr (n, ps, ls)"
    and st': "st' = st\<lparr>preds := preds st @ [ps], labels := labels st @ [ls],
                        total_loss := total_loss st + mean_last_first (tmul
                           (case loss_call lf ?lg lab of Inr l \<Rightarrow> l) ?lm),
                        steps := steps st + 1, calls := calls st @ [Forward src ?am]\<rparr>"
    by (auto simp: eval_batch_def b Let_def split: sum.splits prod.splits)
  note cc = compute_correct_Inr [OF c]
  have len: "length (data ?lm) = length (data lab)" by (simp add: tmap_def)
  have f: "filter (\<lambda>i. data ?lm ! i \<noteq> 0) [0..<length (data ?lm)]
        = filter (\<lambda>i. data lab ! i \<noteq> real_of_int (ignore_index self)) [0..<length (data lab)]"
    unfolding len by (rule filter_cong) (auto simp: tmap_def float_def)
  show "preds st' = preds st @ [fst (batch_vector fwd self (calls st) b)]"
    unfolding st' cc(3) f by (simp add: batch_vector_def b Let_def)
  show "labels st' = labels st @ [snd (batch_vector fwd self (calls st) b)]"
    unfolding st' cc(4) f by (simp add: batch_vector_def b Let_def)
  show "calls st' = calls st @ [Forward (fst b) (tmap (\<lambda>x. float (x \<noteq> pad_token_id self)) (fst b))]"
    unfolding st' by (simp add: b)
  show "steps st' = steps st + 1" unfolding st' by simp
qed

lemma eval_loop_Inr:
  "eval_loop fwd self lf st dl = Inr st' \<Longrightarrow>
   preds st' = preds st @ map fst (batch_vectors fwd self (calls st) dl)
   \<and> labels st' = labels st @ map snd (batch_vectors fwd self (calls st) dl)
   \<and> steps st' = steps st + length dl"
proof (induction dl arbitrary: st)
  case Nil
  then show ?case by simp
next
  case (Cons b dl)
  from Cons.prems obtain st1 where b: "eval_batch fwd self lf st b = Inr st1"
    and r: "eval_loop fwd self lf st1 dl = Inr st'"
    by (auto split: sum.splits)
  note eb = eval_batch_Inr [OF b]
  from Cons.IH [OF r] show ?case
    unfolding eb by simp
qed


lemma eval_batch_returns:
  assumes "well_shaped fwd b"
  shows "\<exists>st'. eval_batch fwd self lf st b = Inr st'"
proof -
  obtain src lab where b: "b = (src, lab)" by (cases b)
  let ?am = "tmap (\<lambda>x. float (x \<noteq> pad_token_id self)) src"
  let ?lm = "tmap (\<lambda>y. float (y \<noteq> real_of_int (ignore_index self))) lab"
  let ?lg = "fwd (calls st) src ?am"
  have wf: "wf_tensor ?lg" "wf_tensor lab" "wf_tensor ?lm"
    and sh: "shape lab = shape ?lg" "shape ?lm = shape ?lg"
    using assms by (simp_all add: well_shaped_def b wf_tensor_tmap shape_tmap)
  obtain l where l: "loss_call lf ?lg lab = Inr l"
    using loss_call_same_shape [OF sh(1)] by blast
  obtain n ps ls where c: "compute_correct ?lg lab ?lm (1 / 2) = Inr (n, ps, ls)"
    using compute_correct_explicit [OF wf sh] by blast
  show ?thesis
    by (simp add: eval_batch_def b Let_def l c)
qed

lemma eval_loop_returns:
  "\<forall>b \<in> set dl. well_shaped fwd b \<Longrightarrow> \<exists>st'. eval_loop fwd self lf st dl = Inr st'"
proof (induction dl arbitrary: st)
  case Nil
  then show ?case by simp
next
  case (Cons b dl)
  from Cons.prems obtain st1 where b: "eval_batch fwd self lf st b = Inr st1"
    using eval_batch_returns [of fwd b self lf st] by auto
  from Cons.IH [of st1] Cons.prems obtain st' where "eval_loop fwd self lf st1 dl = Inr st'"
    by auto
  with b show ?case by simp
qed

text \<open>
  Claim C2. The accuracy an evaluation returns is the accuracy over the concatenation of
  the filtered prediction and label vectors of all its batches, and its precision,
  recall and F1 are the macro averages over that concatenation. It is not the mean of
  the accuracies of the batches: for a batch of one valid label, predicted right, and a
  batch of three valid labels, all predicted wrong, the evaluation returns the accuracy
  1/4 and the mean of the two batch accuracies is 1/2. An evaluation of at least one
  batch, all well shaped, returns.
\<close>

theorem eval_metrics_over_concatenation:
  "(eval fwd self h dl loss_type pos_weight = Inr (sc, h') \<longrightarrow>
      eval_acc sc = accuracy_score
          (concat (map snd (batch_vectors fwd self (h @ [ModelEval]) dl)))
          (concat (map fst (batch_vectors fwd self (h @ [ModelEval]) dl)))
      \<and> (eval_prec sc, eval_rec sc, eval_f_score sc) = precision_recall_fscore_support
          (concat (map snd (batch_vectors fwd self (h @ [ModelEval]) dl)))
          (concat (map fst (batch_vectors fwd self (h @ [ModelEval]) dl))))
   \<and> (dl \<noteq> [] \<and> (\<forall>b \<in> set dl. well_shaped fwd b)
        \<and> kwargs_get loss_type ''binary_cross_entropy'' = ''binary_cross_entropy''
      \<longrightarrow> (\<exists>r. eval fwd self h dl loss_type pos_weight = Inr r))
   \<and> map_sum fst (eval_acc \<circ> fst)
        (eval (\<lambda>h src am. tmap real_of_int src)
           \<lparr>pad_token_id = 0, ignore_index = - 100, global_step = 0,
            gradient_accumulation_steps = 1, steps_per_epoch = 5, max_grad_norm = 1\<rparr> []
           [(\<lparr>nrows = 1, ncols = 1, data = [3]\<rparr>, \<lparr>nrows = 1, ncols = 1, data = [1]\<rparr>),
            (\<lparr>nrows = 1, ncols = 3, data = [2, 5, 7]\<rparr>, \<lparr>nrows = 1, ncols = 3, data = [0, 0, 0]\<rparr>)]
           None None)
       = Inr (1 / 4)
   \<and> mean (map (\<lambda>v. accuracy_score (snd v) (fst v))
        (batch_vectors (\<lambda>h src am. tmap real_of_int src)
           \<lparr>pad_token_id = 0, ignore_index = - 100, global_step = 0,
            gradient_accumulation_steps = 1, steps_per_epoch = 5, max_grad_norm = 1\<rparr> [ModelEval]
           [(\<lparr>nrows = 1, ncols = 1, data = [3]\<rparr>, \<lparr>nrows = 1, ncols = 1, data = [1]\<rparr>),
            (\<lparr>nrows = 1, ncols = 3, data = [2, 5, 7]\<rparr>, \<lparr>nrows = 1, ncols = 3, data = [0, 0, 0]\<rparr>)]))
       = 1 / 2"
proof -
  let ?V = "batch_vectors fwd self (h @ [ModelEval]) dl"
  let ?st0 = "\<lparr>total_loss = 0, steps = 0, calls = h @ [ModelEval], preds = [], labels = []\<rparr>"
  have A: "eval_acc sc = accuracy_score (concat (map snd ?V)) (concat (map fst ?V))
      \<and> (eval_prec sc, eval_rec sc, eval_f_score sc)
          = precision_recall_fscore_support (concat (map snd ?V)) (concat (map fst ?V))"
    if r: "eval fwd self h dl loss_type pos_weight = Inr (sc, h')"
  proof -
    from r obtain lf st where st: "eval_loop fwd self lf ?st0 dl = Inr st"
      and sc: "eval_acc sc = accuracy_score (concat (labels st)) (concat (preds st))"
        "(eval_prec sc, eval_rec sc, eval_f_score sc)
           = precision_recall_fscore_support (concat (labels st)) (concat (preds st))"
      by (auto simp: eval_def Let_def split: sum.splits if_splits prod.splits)
    from eval_loop_Inr [OF st] have p: "preds st = map fst ?V" and l: "labels st = map snd ?V"
      by simp_all
    show ?thesis
      using sc unfolding p l by simp
  qed
  have B: "\<exists>r. eval fwd self h dl loss_type pos_weight = Inr r"
    if p: "dl \<noteq> [] \<and> (\<forall>b \<in> set dl. well_shaped fwd b)
        \<and> kwargs_get loss_type ''binary_cross_entropy'' = ''binary_cross_entropy''"
  proof -
    from eval_loop_returns [of dl fwd self "BCEWithLogitsLoss ''none'' pos_weight" ?st0] p
    obtain st where st: "eval_loop fwd self (BCEWithLogitsLoss ''none'' pos_weight) ?st0 dl = Inr st"
      by blast
    from eval_loop_Inr [OF st] p have "steps st \<noteq> 0" by simp
    then show ?thesis
      using st p by (simp add: eval_def Let_def get_loss_fn_def split: prod.splits)
  qed
  have C: "map_sum fst (eval_acc \<circ> fst)
        (eval (\<lambda>h src am. tmap real_of_int src)
           \<lparr>pad_token_id = 0, ignore_index = - 100, global_step = 0,
            gradient_accumulation_steps = 1, steps_per_epoch = 5, max_grad_norm = 1\<rparr> []
           [(\<lparr>nrows = 1, ncols = 1, data = [3]\<rparr>, \<lparr>nrows = 1, ncols = 1, data = [1]\<rparr>),
            (\<lparr>nrows = 1, ncols = 3, data = [2, 5, 7]\<rparr>, \<lparr>nrows = 1, ncols = 3, data = [0, 0, 0]\<rparr>)]
           None None)
       = Inr (1 / 4)"
    by (simp add: eval_def get_loss_fn_def kwargs_get_def eval_batch_def Let_def tmap_def
        shape_def compute_correct_def flatten_def mask_index_def float_def long_def tmul_def
        mean_last_first_def accuracy_score_def sigmoid_gt_half sigmoid_gt_half_nf
        split: prod.splits)
  have D: "mean (map (\<lambda>v. accuracy_score (snd v) (fst v))
        (batch_vectors (\<lambda>h src am. tmap real_of_int src)
           \<lparr>pad_token_id = 0, ignore_index = - 100, global_step = 0,
            gradient_accumulation_steps = 1, steps_per_epoch = 5, max_grad_norm = 1\<rparr> [ModelEval]
           [(\<lparr>nrows = 1, ncols = 1, data = [3]\<rparr>, \<lparr>nrows = 1, ncols = 1, data = [1]\<rparr>),
            (\<lparr>nrows = 1, ncols = 3, data = [2, 5, 7]\<rparr>, \<lparr>nrows = 1, ncols = 3, data = [0, 0, 0]\<rparr>)]))
       = 1 / 2"
    by (simp add: batch_vector_def Let_def tmap_def float_def long_def mean_def
        accuracy_score_def sigmoid_gt_half sigmoid_gt_half_nf upt_rec)
  from A B C D show ?thesis by blast
qed


theorem eval_metrics_over_concatenation_witness:
  "map_sum fst (eval_acc \<circ> fst)
        (eval (\<lambda>h src am. tmap real_of_int src)
           \<lparr>pad_token_id = 0, ignore_index = - 100, global_step = 0,
            gradient_accumulation_steps = 1, steps_per_epoch = 5, max_grad_norm = 1\<rparr> []
           [(\<lparr>nrows = 1, ncols = 2, data = [3, 9]\<rparr>, \<lparr>nrows = 1, ncols = 2, data = [1, - 100]\<rparr>),
            (\<lparr>nrows = 1, ncols = 3, data = [2, 5, 7]\<rparr>, \<lparr>nrows = 1, ncols = 3, data = [0, 0, 0]\<rparr>)]
           None None)
       = Inr (accuracy_score [1, 0, 0, 0] [1, 1, 1, 1])
   \<and> accuracy_score [1, 0, 0, 0] [1, 1, 1, 1] = 1 / 4
   \<and> map_sum fst ((\<lambda>sc. (eval_prec sc, eval_rec sc, eval_f_score sc)) \<circ> fst)
        (eval (\<lambda>h src am. tmap real_of_int src)
           \<lparr>pad_token_id = 0, ignore_index = - 100, global_step = 0,
            gradient_accumulation_steps = 1, steps_per_epoch = 5, max_grad_norm = 1\<rparr> []
           [(\<lparr>nrows = 1, ncols = 2, data = [3, 9]\<rparr>, \<lparr>nrows = 1, ncols = 2, data = [1, - 100]\<rparr>),
            (\<lparr>nrows = 1, ncols = 3, data = [2, 5, 7]\<rparr>, \<lparr>nrows = 1, ncols = 3, data = [0, 0, 0]\<rparr>)]
           None None)
       = Inr (precision_recall_fscore_support [1, 0, 0, 0] [1, 1, 1, 1])
   \<and> precision_recall_fscore_support [1, 0, 0, 0] [1, 1, 1, 1] = (1 / 8, 1 / 2, 1 / 5)"
proof -
  let ?fwd = "\<lambda>(h :: call list) (src :: int tensor) (am :: real tensor). tmap real_of_int src"
  let ?self = "\<lparr>pad_token_id = 0, ignore_index = - 100, global_step = 0,
            gradient_accumulation_steps = 1, steps_per_epoch = 5, max_grad_norm = 1\<rparr>"
  let ?dl = "[(\<lparr>nrows = 1, ncols = 2, data = [3, 9 :: int]\<rparr>,
               \<lparr>nrows = 1, ncols = 2, data = [1, - 100 :: real]\<rparr>),
            (\<lparr>nrows = 1, ncols = 3, data = [2, 5, 7]\<rparr>, \<lparr>nrows = 1, ncols = 3, data = [0, 0, 0]\<rparr>)]"
  note t = eval_metrics_over_concatenation [of ?fwd ?self "[]" ?dl None None]
  have p: "?dl \<noteq> [] \<and> (\<forall>b \<in> set ?dl. well_shaped ?fwd b)
        \<and> kwargs_get None ''binary_cross_entropy'' = ''binary_cross_entropy''"
    by (simp add: well_shaped_def wf_tensor_def tmap_def shape_def kwargs_get_def)
  from t p obtain sc h' where r: "eval ?fwd ?self [] ?dl None None = Inr (sc, h')"
    by fastforce
  have V: "batch_vectors ?fwd ?self ([] @ [ModelEval]) ?dl = [([1], [1]), ([1, 1, 1], [0, 0, 0])]"
    by (simp add: batch_vector_def Let_def tmap_def float_def long_def
        sigmoid_gt_half sigmoid_gt_half_nf upt_rec)
  from eval_metrics_over_concatenation [of ?fwd ?self "[]" ?dl None None sc h'] r
  have a: "eval_acc sc = accuracy_score [1, 0, 0, 0] [1, 1, 1, 1]"
    and m: "(eval_prec sc, eval_rec sc, eval_f_score sc)
        = precision_recall_fscore_support [1, 0, 0, 0] [1, 1, 1, 1]"
    unfolding V by simp_all
  have av: "accuracy_score [1, 0, 0, 0] [1, 1, 1, 1] = 1 / 4"
    by (simp add: accuracy_score_def)
  have mv: "precision_recall_fscore_support [1, 0, 0, 0] [1, 1, 1, 1] = (1 / 8, 1 / 2, 1 / 5)"
    by (simp add: precision_recall_fscore_support_def Let_def class_precision_def
        class_recall_def class_f_score_def ratio_def count_where_def mean_def)
  show ?thesis unfolding r using a m av mv by simp
qed

end
